theory Spec2Isabelle
  imports Complex_Main "HOL-Library.Char_ord" "HOL-Library.List_Lexorder"
begin

section \<open>Tool fallbacks with tiny circuit breakers\<close>

text \<open>
  A shallow embedding of \<^verbatim>\<open>src/patterns/tool-fallbacks/examples/py/main.py\<close>.

  Conventions of the embedding.
  \<^item> Python floats (durations, clock readings, thresholds) are exact \<^typ>\<open>real\<close>
    numbers; Python ints are \<^typ>\<open>int\<close>. NaN, infinities and rounding are outside
    the model.
  \<^item> A clock is read through a parameter: each breaker method reads
    \<^verbatim>\<open>now_ms_monotonic()\<close> at most once, and its \<open>now\<close> argument is the value that
    read returns.
  \<^item> A raised exception is the \<open>Inl\<close> of a sum; a normal return is the \<open>Inr\<close>.
  \<^item> \<^verbatim>\<open>emit\<close> only prints a line; it has no effect on any value modelled here and
    is left out.
\<close>

subsection \<open>Rolling statistics\<close>

text \<open>Python's \<^verbatim>\<open>int(x)\<close> on a float truncates towards zero.\<close>

definition py_int :: "real \<Rightarrow> int" where
  "py_int x = (if 0 \<le> x then \<lfloor>x\<rfloor> else \<lceil>x\<rceil>)"

text \<open>
  \<^verbatim>\<open>
  def p95(values):
      if not values:
          return 0.0
      sorted_vals = sorted(values)
      idx = min(len(sorted_vals) - 1, int(0.95 * (len(sorted_vals) - 1)))
      return sorted_vals[idx]
  \<close>
  The index is never negative and never beyond the last element (lemma \<open>p95_idx_range\<close>),
  so the subscript cannot raise.
\<close>

definition p95_idx :: "nat \<Rightarrow> int" where
  "p95_idx n = min (int n - 1) (py_int (0.95 * real_of_int (int n - 1)))"

definition p95 :: "real list \<Rightarrow> real" where
  "p95 vals =
     (if vals = [] then 0
      else let sorted_vals = sort vals;
               idx = p95_idx (length sorted_vals)
           in sorted_vals ! nat idx)"

subsection \<open>The circuit breaker\<close>

datatype breaker_state = Closed | Open | Probe

record breaker =
  state :: breaker_state
  last_opened_at_ms :: real
  outcomes :: "(real \<times> bool) list"
  sample_size :: int
  max_fail_rate :: real
  cooldown_ms :: real
  max_p95_ms :: real
  name :: string

text \<open>\<^verbatim>\<open>CircuitBreaker.__init__\<close>: closed, never opened, empty window.\<close>

definition CircuitBreaker :: "int \<Rightarrow> real \<Rightarrow> int \<Rightarrow> int \<Rightarrow> string \<Rightarrow> breaker" where
  "CircuitBreaker n rate cooldown maxp95 nm =
     \<lparr> state = Closed, last_opened_at_ms = 0, outcomes = [],
       sample_size = n, max_fail_rate = rate,
       cooldown_ms = real_of_int cooldown, max_p95_ms = real_of_int maxp95,
       name = nm \<rparr>"

text \<open>
  \<^verbatim>\<open>
  def can_probe(self):
      if self._state != "open":
          return False
      now = now_ms_monotonic()
      return (now - self._last_opened_at_ms) >= self._cooldown_ms
  \<close>
\<close>

definition can_probe :: "breaker \<Rightarrow> real \<Rightarrow> bool" where
  "can_probe b now =
     (if state b \<noteq> Open then False
      else now - last_opened_at_ms b \<ge> cooldown_ms b)"

definition enter_probe :: "breaker \<Rightarrow> real \<Rightarrow> breaker" where
  "enter_probe b now = (if can_probe b now then b\<lparr>state := Probe\<rparr> else b)"

text \<open>
  \<^verbatim>\<open>
  def _push_outcome(self, ms, ok):
      self._outcomes.append((ms, ok))
      if len(self._outcomes) > self._sample_size:
          self._outcomes.pop(0)
  \<close>
  After the append the list is not empty, so \<^verbatim>\<open>pop(0)\<close> cannot raise; it drops the head.
\<close>

definition push_outcome :: "breaker \<Rightarrow> real \<Rightarrow> bool \<Rightarrow> breaker" where
  "push_outcome b ms ok =
     (let os = outcomes b @ [(ms, ok)]
      in b\<lparr>outcomes := (if int (length os) > sample_size b then tl os else os)\<rparr>)"

text \<open>
  The two statistics of \<^verbatim>\<open>_evaluate\<close>:
  \<^verbatim>\<open>
  fails = sum(1 for (_ms, ok) in self._outcomes if not ok)
  fail_rate = (fails / len(self._outcomes)) if self._outcomes else 0.0
  p95_ms = p95([ms for (ms, _ok) in self._outcomes])
  \<close>
\<close>

definition fails :: "(real \<times> bool) list \<Rightarrow> nat" where
  "fails os = length (filter (\<lambda>(ms, ok). \<not> ok) os)"

definition fail_rate :: "(real \<times> bool) list \<Rightarrow> real" where
  "fail_rate os = (if os \<noteq> [] then real (fails os) / real (length os) else 0)"

definition p95_ms :: "(real \<times> bool) list \<Rightarrow> real" where
  "p95_ms os = p95 (map fst os)"

text \<open>
  \<^verbatim>\<open>
  if self._state != "open" and (fail_rate >= self._max_fail_rate or p95_ms >= self._max_p95_ms):
      self._state = "open"
      self._last_opened_at_ms = now_ms_monotonic()
  \<close>
\<close>

definition trips :: "breaker \<Rightarrow> bool" where
  "trips b = (fail_rate (outcomes b) \<ge> max_fail_rate b \<or> p95_ms (outcomes b) \<ge> max_p95_ms b)"

definition evaluate :: "breaker \<Rightarrow> real \<Rightarrow> breaker" where
  "evaluate b now =
     (if state b \<noteq> Open \<and> trips b
      then b\<lparr>state := Open, last_opened_at_ms := now\<rparr>
      else b)"

text \<open>
  \<^verbatim>\<open>
  def success(self, ms):
      self._push_outcome(ms, True)
      if self._state == "probe":
          self._state = "closed"
      self._evaluate()

  def failure(self, ms):
      self._push_outcome(ms, False)
      self._evaluate()
  \<close>
\<close>

definition success :: "breaker \<Rightarrow> real \<Rightarrow> real \<Rightarrow> breaker" where
  "success b ms now =
     (let b1 = push_outcome b ms True;
          b2 = (if state b1 = Probe then b1\<lparr>state := Closed\<rparr> else b1)
      in evaluate b2 now)"

definition failure :: "breaker \<Rightarrow> real \<Rightarrow> real \<Rightarrow> breaker" where
  "failure b ms now = evaluate (push_outcome b ms False) now"

text \<open>
  A run of outcome reports: each entry is the duration, the outcome and the clock value
  at the time of the report.
\<close>

fun report :: "breaker \<Rightarrow> real \<times> bool \<times> real \<Rightarrow> breaker" where
  "report b (ms, ok, now) = (if ok then success b ms now else failure b ms now)"

definition feed :: "breaker \<Rightarrow> (real \<times> bool \<times> real) list \<Rightarrow> breaker" where
  "feed b evs = foldl report b evs"

subsection \<open>Strings\<close>

text \<open>
  Strings are byte lists. \<^verbatim>\<open>needle in haystack\<close>, \<^verbatim>\<open>str.lower\<close>, \<^verbatim>\<open>str.strip\<close>,
  \<^verbatim>\<open>str.split(sep)\<close>, \<^verbatim>\<open>sep.join\<close> and the decimal \<^verbatim>\<open>str(int)\<close> of an f-string are
  written out for ASCII text.
\<close>

fun starts_with :: "string \<Rightarrow> string \<Rightarrow> bool" where
  "starts_with [] s = True"
| "starts_with (p # ps) [] = False"
| "starts_with (p # ps) (c # cs) = (p = c \<and> starts_with ps cs)"

fun contains :: "string \<Rightarrow> string \<Rightarrow> bool" where
  "contains needle [] = (needle = [])"
| "contains needle (c # cs) = (starts_with needle (c # cs) \<or> contains needle cs)"

definition lower_char :: "char \<Rightarrow> char" where
  "lower_char c =
     (case map_of (zip ''ABCDEFGHIJKLMNOPQRSTUVWXYZ'' ''abcdefghijklmnopqrstuvwxyz'') c of
        Some l \<Rightarrow> l
      | None \<Rightarrow> c)"

definition lower :: "string \<Rightarrow> string" where
  "lower s = map lower_char s"

definition is_space :: "char \<Rightarrow> bool" where
  "is_space c = (c = CHR '' '' \<or> c = CHR 0x09 \<or> c = CHR 0x0A \<or> c = CHR 0x0B
                 \<or> c = CHR 0x0C \<or> c = CHR 0x0D)"

definition strip :: "string \<Rightarrow> string" where
  "strip s = rev (dropWhile is_space (rev (dropWhile is_space s)))"

fun split_acc :: "char \<Rightarrow> string \<Rightarrow> string \<Rightarrow> string list" where
  "split_acc sep cur [] = [rev cur]"
| "split_acc sep cur (c # cs) =
     (if c = sep then rev cur # split_acc sep [] cs else split_acc sep (c # cur) cs)"

definition split_on :: "char \<Rightarrow> string \<Rightarrow> string list" where
  "split_on sep s = split_acc sep [] s"

fun join :: "string \<Rightarrow> string list \<Rightarrow> string" where
  "join sep [] = []"
| "join sep [x] = x"
| "join sep (x # y # ys) = x @ sep @ join sep (y # ys)"

definition digit_char :: "nat \<Rightarrow> char" where
  "digit_char d = ''0123456789'' ! d"

fun str_nat :: "nat \<Rightarrow> string" where
  "str_nat n = (if n < 10 then [digit_char n] else str_nat (n div 10) @ [digit_char (n mod 10)])"

declare str_nat.simps [simp del]

definition str_int :: "int \<Rightarrow> string" where
  "str_int i = (if i < 0 then CHR ''-'' # str_nat (nat (- i)) else str_nat (nat i))"

subsection \<open>Exceptions and the timeout helper\<close>

text \<open>
  The exceptions that occur, each with its message: a \<^verbatim>\<open>TimeoutError\<close> (which
  \<^verbatim>\<open>asyncio.TimeoutError\<close> is), any other \<^verbatim>\<open>Exception\<close>, and a \<^verbatim>\<open>BaseException\<close>
  that is not an \<^verbatim>\<open>Exception\<close> (a cancellation, a keyboard interrupt).
\<close>

datatype exn = Exception string | TimeoutError string | BaseException string

fun str_exn :: "exn \<Rightarrow> string" where
  "str_exn (Exception m) = m"
| "str_exn (TimeoutError m) = m"
| "str_exn (BaseException m) = m"

fun isinstance_Exception :: "exn \<Rightarrow> bool" where
  "isinstance_Exception (Exception m) = True"
| "isinstance_Exception (TimeoutError m) = True"
| "isinstance_Exception (BaseException m) = False"

definition to_error :: "exn \<Rightarrow> exn" where
  "to_error e = (if isinstance_Exception e then e else Exception (str_exn e))"

text \<open>
  What awaiting a coroutine under \<^verbatim>\<open>asyncio.wait_for\<close> gives: its value, the exception
  it raised, or the deadline firing first. Which of the three happens is decided by the
  environment (the remote service and the event loop), so it is an input of the model.
\<close>

datatype 'a awaited = Returned 'a | Raised exn | DeadlineFirst

text \<open>
  \<^verbatim>\<open>
  async def with_timeout(coro, ms, label):
      try:
          return await asyncio.wait_for(coro, timeout=ms / 1000.0)
      except asyncio.TimeoutError as _:
          raise TimeoutError(f"timeout_{label}")
      except Exception:
          raise
  \<close>
  The result is \<open>Inr\<close> for a normal return and \<open>Inl\<close> for an exception that leaves
  \<^verbatim>\<open>with_timeout\<close>. A \<^verbatim>\<open>BaseException\<close> matches neither handler and leaves as it is.
\<close>

fun with_timeout :: "'a awaited \<Rightarrow> int \<Rightarrow> string \<Rightarrow> exn + 'a" where
  "with_timeout (Returned v) ms label = Inr v"
| "with_timeout DeadlineFirst ms label = Inl (TimeoutError (''timeout_'' @ label))"
| "with_timeout (Raised (TimeoutError m)) ms label = Inl (TimeoutError (''timeout_'' @ label))"
| "with_timeout (Raised (Exception m)) ms label = Inl (Exception m)"
| "with_timeout (Raised (BaseException m)) ms label = Inl (BaseException m)"

subsection \<open>Cache, baseline estimate and freshness label\<close>

text \<open>
  \<^verbatim>\<open>
  def baseline_estimate_cents(sku):
      if "STEAK" in sku: return 399
      if "FISH" in sku: return 349
      if "PASTA" in sku: return 149
      return 250
  \<close>
\<close>

definition baseline_estimate_cents :: "string \<Rightarrow> int" where
  "baseline_estimate_cents sku =
     (if contains ''STEAK'' sku then 399
      else if contains ''FISH'' sku then 349
      else if contains ''PASTA'' sku then 149
      else 250)"

text \<open>Python's \<^verbatim>\<open>//\<close> and \<^verbatim>\<open>%\<close> on floats, for a positive divisor.\<close>

definition py_floordiv :: "real \<Rightarrow> real \<Rightarrow> real" where
  "py_floordiv x y = real_of_int \<lfloor>x / y\<rfloor>"

definition py_mod :: "real \<Rightarrow> real \<Rightarrow> real" where
  "py_mod x y = x - y * real_of_int \<lfloor>x / y\<rfloor>"

text \<open>
  \<^verbatim>\<open>
  def freshness_label(ts_ms):
      age_ms = now_ms_wall() - ts_ms
      hours = int(age_ms // (1000.0 * 60 * 60))
      mins = int((age_ms % (1000.0 * 60 * 60)) // (1000.0 * 60))
      return f"{hours}h {mins}m old" if hours > 0 else f"{mins}m old"
  \<close>
  The second argument is the value \<^verbatim>\<open>now_ms_wall()\<close> returns.
\<close>

definition freshness_label :: "real \<Rightarrow> real \<Rightarrow> string" where
  "freshness_label ts_ms wall =
     (let age_ms = wall - ts_ms;
          hours = py_int (py_floordiv age_ms (1000 * 60 * 60));
          mins = py_int (py_floordiv (py_mod age_ms (1000 * 60 * 60)) (1000 * 60))
      in if hours > 0 then str_int hours @ ''h '' @ str_int mins @ ''m old''
         else str_int mins @ ''m old'')"

subsection \<open>The supplier client\<close>

datatype region = US_East | US_West

fun region_str :: "region \<Rightarrow> string" where
  "region_str US_East = ''us-east''"
| "region_str US_West = ''us-west''"

record price_result =
  cents :: int
  is_degraded :: bool
  reasons :: "string list"
  freshness :: "string option"

text \<open>
  What one guarded call meets: the outcome of the awaited remote call, and the value of
  the monotonic clock at each place the code may read it, in program order: the gate
  (\<^verbatim>\<open>brk.state() == "open" and not brk.can_probe()\<close>), the second \<^verbatim>\<open>can_probe\<close>,
  \<^verbatim>\<open>enter_probe\<close>, the start and the end of the call, and the report to the breaker.
  \<open>t_wall\<close> is the wall clock when a fresh price is cached.
\<close>

record 'a call_env =
  fetched :: "'a awaited"
  t_gate :: real
  t_check :: real
  t_enter :: real
  t_start :: real
  t_end :: real
  t_report :: real
  t_wall :: real

record env =
  region_env :: "region \<Rightarrow> int call_env"
  wall_now :: real

text \<open>
  The mutable world of the supplier client: its breakers (\<^verbatim>\<open>self._breakers\<close>), the
  module's \<^verbatim>\<open>price_cache\<close> (SKU to cents and timestamp) and the trace of the calls made
  to \<^verbatim>\<open>fetch_supplier_price\<close>.
\<close>

record world =
  breakers :: "region \<Rightarrow> breaker"
  price_cache :: "string \<rightharpoonup> (int \<times> real)"
  calls :: "(string \<times> region) list"

text \<open>\<^verbatim>\<open>SupplierClient.__init__\<close>, with a given cache.\<close>

definition SupplierClient :: "(string \<rightharpoonup> (int \<times> real)) \<Rightarrow> world" where
  "SupplierClient cache =
     \<lparr> breakers = (\<lambda>r. CircuitBreaker 40 0.4 15000 1200 (''supplier_'' @ region_str r)),
       price_cache = cache, calls = [] \<rparr>"

text \<open>
  \<^verbatim>\<open>
  async def _try_region(self, sku, region):
      start = now_ms_monotonic()
      res = await fetch_supplier_price(sku, region)
      duration = now_ms_monotonic() - start
      return int(res["cents"]), duration
  \<close>
\<close>

fun try_region :: "int awaited \<Rightarrow> real \<Rightarrow> real \<Rightarrow> (int \<times> real) awaited" where
  "try_region (Returned c) start fin = Returned (c, fin - start)"
| "try_region (Raised e) start fin = Raised e"
| "try_region DeadlineFirst start fin = DeadlineFirst"

text \<open>
  The closure \<^verbatim>\<open>attempt(region)\<close> of \<^verbatim>\<open>get_price\<close>. The list \<^verbatim>\<open>reasons\<close> it shares with
  \<^verbatim>\<open>get_price\<close> is passed in and returned. The \<^verbatim>\<open>try\<close> body is the \<open>Inr\<close> branch, the
  handler \<^verbatim>\<open>except BaseException\<close> the \<open>Inl\<close> branch; the result of \<open>attempt\<close> itself is
  again a sum, so an exception that left it would show as \<open>Inl\<close>.
\<close>

definition attempt ::
  "env \<Rightarrow> string \<Rightarrow> region \<Rightarrow> string list \<Rightarrow> world
     \<Rightarrow> exn + (price_result option \<times> string list \<times> world)" where
  "attempt ev sku r rs w =
     (let brk = breakers w r; e = region_env ev r
      in if state brk = Open \<and> \<not> can_probe brk (t_gate e)
         then Inr (None, rs @ [''supplier_open''], w)
         else
           let brk1 = (if can_probe brk (t_check e) then enter_probe brk (t_enter e) else brk);
               w1 = w\<lparr>calls := calls w @ [(sku, r)]\<rparr>
           in case with_timeout (try_region (fetched e) (t_start e) (t_end e)) 900
                     (''supplier_'' @ region_str r) of
                Inr (c, duration) \<Rightarrow>
                  let brk2 = success brk1 duration (t_report e);
                      w2 = w1\<lparr>breakers := (breakers w1)(r := brk2),
                              price_cache := (price_cache w1)(sku \<mapsto> (c, t_wall e))\<rparr>
                  in Inr (Some \<lparr>cents = c, is_degraded = (length rs > 0), reasons = rs,
                                 freshness = None\<rparr>, rs, w2)
              | Inl x \<Rightarrow>
                  let err = to_error x;
                      brk2 = failure brk1 900 (t_report e);
                      w2 = w1\<lparr>breakers := (breakers w1)(r := brk2)\<rparr>
                  in Inr (None, rs @ [''supplier_error_'' @ region_str r], w2))"

text \<open>
  \<^verbatim>\<open>SupplierClient.get_price\<close>: primary region, mirror region, cache, baseline estimate.
  The successful mirror result shares its \<^verbatim>\<open>reasons\<close> list with \<^verbatim>\<open>get_price\<close>, so the
  append of \<^verbatim>\<open>"used_mirror"\<close> extends the list it was built with.
\<close>

definition get_price :: "env \<Rightarrow> world \<Rightarrow> string \<Rightarrow> region \<Rightarrow> exn + (price_result \<times> world)" where
  "get_price ev w sku preferred =
     (let primary = preferred;
          mirror = (if preferred = US_East then US_West else US_East)
      in case attempt ev sku primary [] w of
           Inl x \<Rightarrow> Inl x
         | Inr (p1, rs1, w1) \<Rightarrow>
             (case p1 of
                Some res \<Rightarrow> Inr (res, w1)
              | None \<Rightarrow>
                  (case attempt ev sku mirror rs1 w1 of
                     Inl x \<Rightarrow> Inl x
                   | Inr (p2, rs2, w2) \<Rightarrow>
                       (case p2 of
                          Some res \<Rightarrow>
                            Inr (res\<lparr>reasons := reasons res @ [''used_mirror''],
                                     is_degraded := True\<rparr>, w2)
                        | None \<Rightarrow>
                            (case price_cache w2 sku of
                               Some (c, ts) \<Rightarrow>
                                 let fr = freshness_label ts (wall_now ev)
                                 in Inr (\<lparr>cents = c, is_degraded = True,
                                          reasons = rs2 @ [''used_cache''],
                                          freshness = Some fr\<rparr>, w2)
                             | None \<Rightarrow>
                                 Inr (\<lparr>cents = baseline_estimate_cents sku, is_degraded = True,
                                       reasons = rs2 @ [''used_baseline''],
                                       freshness = None\<rparr>, w2))))))"

subsection \<open>The allergen client\<close>

record recipe =
  recipe_id :: string
  recipe_name :: string
  ingredients :: "string list"
  allergen_tags :: "string list"

record allergen_result =
  items :: "string list"
  a_is_degraded :: bool
  a_reasons :: "string list"

text \<open>\<^verbatim>\<open>AllergenClient.__init__\<close>.\<close>

definition AllergenClient :: breaker where
  "AllergenClient = CircuitBreaker 30 0.35 12000 1000 ''allergen''"

text \<open>
  \<^verbatim>\<open>llm_complete\<close> sleeps and returns a constant, whatever the prompt.
\<close>

definition llm_complete :: "string \<Rightarrow> nat \<Rightarrow> real \<Rightarrow> string" where
  "llm_complete prompt max_tokens temperature = ''gluten, dairy, nuts, soy''"

text \<open>
  \<^verbatim>\<open>
  local = sorted(set(tag.lower() for tag in recipe.allergen_tags))
  llm_items = [s.strip().lower() for s in llm_raw.split(",") if s.strip()]
  items = sorted(set(local).union(llm_items))
  \<close>
  \<^verbatim>\<open>sorted(set(xs))\<close> is the sorted list of the distinct elements of \<open>xs\<close>.
\<close>

definition local_tags :: "recipe \<Rightarrow> string list" where
  "local_tags rc = sort (remdups (map lower (allergen_tags rc)))"

definition llm_items :: "string \<Rightarrow> string list" where
  "llm_items llm_raw =
     map (\<lambda>s. lower (strip s)) (filter (\<lambda>s. strip s \<noteq> []) (split_on CHR '','' llm_raw))"

definition fallback_items :: "recipe \<Rightarrow> string list" where
  "fallback_items rc =
     (let prompt = ''Given ingredients: '' @ join '', '' (ingredients rc) @ [CHR 0x0A]
                   @ ''Return a short list of likely allergens. If unsure, include it.'';
          llm_raw = llm_complete prompt 80 0
      in sort (remdups (local_tags rc @ llm_items llm_raw)))"

text \<open>
  \<^verbatim>\<open>AllergenClient.allergens_for\<close>. The first component of the state is the client's
  breaker; the trace counts the calls to \<^verbatim>\<open>fetch_allergens\<close> and to \<^verbatim>\<open>llm_complete\<close>.
\<close>

datatype allergen_call = Fetch_Allergens | Llm_Complete

definition allergens_for ::
  "string list call_env \<Rightarrow> breaker \<Rightarrow> recipe
     \<Rightarrow> exn + (allergen_result \<times> breaker \<times> allergen_call list)" where
  "allergens_for e brk rc =
     (let fallbacks = (\<lambda>rs b tr.
            Inr (\<lparr>items = fallback_items rc, a_is_degraded = True,
                   a_reasons = rs @ [''allergen_fallback_local_tags'', ''allergen_fallback_llm'']\<rparr>,
                 b, tr @ [Llm_Complete]))
      in if \<not> (state brk = Open \<and> \<not> can_probe brk (t_gate e))
         then
           let brk1 = (if can_probe brk (t_check e) then enter_probe brk (t_enter e) else brk)
           in case with_timeout (fetched e) 800 ''allergen'' of
                Inr its \<Rightarrow>
                  let duration = t_end e - t_start e;
                      brk2 = success brk1 duration (t_report e)
                  in Inr (\<lparr>items = its, a_is_degraded = False, a_reasons = []\<rparr>,
                          brk2, [Fetch_Allergens])
              | Inl x \<Rightarrow>
                  let err = to_error x;
                      brk2 = failure brk1 800 (t_report e);
                      tag = (if contains ''timeout'' (lower (str_exn err))
                             then ''allergen_timeout'' else ''allergen_invalid_json'')
                  in fallbacks [tag] brk2 [Fetch_Allergens]
         else fallbacks [''allergen_open''] brk [])"

subsection \<open>The spec's percentile\<close>

text \<open>
  For comparison with \<open>p95\<close>, the percentile as the specification words it: nearest rank,
  the element at index \<open>ceil(0.95 * len) - 1\<close> of the durations sorted ascending, and \<open>0\<close>
  for an empty window.
\<close>

definition nearest_rank_p95 :: "real list \<Rightarrow> real" where
  "nearest_rank_p95 vals =
     (if vals = [] then 0 else sort vals ! nat (\<lceil>0.95 * real (length vals)\<rceil> - 1))"

subsection \<open>The samples of a run\<close>

text \<open>The (duration, outcome) pairs that a run of reports pushes, in order.\<close>

definition samples :: "(real \<times> bool \<times> real) list \<Rightarrow> (real \<times> bool) list" where
  "samples evs = map (\<lambda>(ms, ok, now). (ms, ok)) evs"

subsection \<open>Steps that fail or are skipped\<close>

text \<open>Whether the awaited call returned a value.\<close>

fun returned :: "'a awaited \<Rightarrow> bool" where
  "returned (Returned v) = True"
| "returned (Raised e) = False"
| "returned DeadlineFirst = False"

text \<open>
  A region step is skipped when its breaker is open and may not probe at the gate; it
  fails when the guarded call does not return. \<open>step_tag\<close> is the tag the code then
  appends to \<^verbatim>\<open>reasons\<close>.
\<close>

definition step_skipped :: "env \<Rightarrow> world \<Rightarrow> region \<Rightarrow> bool" where
  "step_skipped ev w r =
     (state (breakers w r) = Open \<and> \<not> can_probe (breakers w r) (t_gate (region_env ev r)))"

definition step_fails :: "env \<Rightarrow> world \<Rightarrow> region \<Rightarrow> bool" where
  "step_fails ev w r = (step_skipped ev w r \<or> \<not> returned (fetched (region_env ev r)))"

definition step_tag :: "env \<Rightarrow> world \<Rightarrow> region \<Rightarrow> string" where
  "step_tag ev w r =
     (if step_skipped ev w r then ''supplier_open'' else ''supplier_error_'' @ region_str r)"

definition mirror_of :: "region \<Rightarrow> region" where
  "mirror_of preferred = (if preferred = US_East then US_West else US_East)"

text \<open>
  The number of non-terminal steps of the supplier chain (primary region, mirror region,
  cache) that fail or are skipped in a run where no region call returns.
\<close>

definition failed_or_skipped_steps :: "env \<Rightarrow> world \<Rightarrow> string \<Rightarrow> region \<Rightarrow> nat" where
  "failed_or_skipped_steps ev w sku preferred =
     (if step_fails ev w preferred then 1 else 0)
     + (if step_fails ev w (mirror_of preferred) then 1 else 0)
     + (if price_cache w sku = None then 1 else 0)"

subsection \<open>A scenario\<close>

text \<open>
  An environment in which every supplier call fails with a 502 after 400 ms, read at
  monotonic time 20000; and a world in which the us-west breaker has opened at time 10000
  on one failure (cooldown 15000 not yet elapsed at 20000), the us-east breaker is new,
  and the cache holds 199 cents for SKU \<open>X\<close>, stored 30 minutes before the wall clock
  time of the request.
\<close>

definition failing_env :: env where
  "failing_env =
     \<lparr> region_env = (\<lambda>r. \<lparr>fetched = Raised (Exception ''502_bad_gateway''),
                            t_gate = 20000, t_check = 20000, t_enter = 20000,
                            t_start = 20000, t_end = 20400, t_report = 20400,
                            t_wall = 1600000000000\<rparr>),
       wall_now = 1600000000000 \<rparr>"

definition west_open_world :: world where
  "west_open_world =
     \<lparr> breakers = (\<lambda>r. if r = US_West
                        then failure (CircuitBreaker 40 0.4 15000 1200 ''supplier_us-west'')
                               900 10000
                        else CircuitBreaker 40 0.4 15000 1200 ''supplier_us-east''),
       price_cache = [''X'' \<mapsto> (199, 1600000000000 - 30 * 60 * 1000)],
       calls = [] \<rparr>"

section \<open>Properties\<close>

subsection \<open>The percentile index and the breaker's steps\<close>

lemma p95_idx_floor: "0 < n \<Longrightarrow> p95_idx n = \<lfloor>0.95 * real (n - 1)\<rfloor>"
proof -
  assume n: "0 < n"
  define x where "x = (0.95::real) * real (n - 1)"
  have x0: "0 \<le> x" by (simp add: x_def)
  have le: "x \<le> real (n - 1)" by (simp add: x_def)
  have "\<lfloor>x\<rfloor> \<le> \<lfloor>real (n - 1)\<rfloor>"
    using le by (rule floor_mono)
  then have fl: "\<lfloor>x\<rfloor> \<le> int n - 1" using n by simp
  have eq: "real_of_int (int n - 1) = real (n - 1)" using n by simp
  have "p95_idx n = min (int n - 1) (py_int x)"
    unfolding p95_idx_def x_def eq ..
  also have "py_int x = \<lfloor>x\<rfloor>" using x0 by (simp add: py_int_def)
  also have "min (int n - 1) \<lfloor>x\<rfloor> = \<lfloor>x\<rfloor>" using fl by (simp add: min_def)
  finally show ?thesis by (simp add: x_def)
qed


lemma p95_idx_range: "0 < n \<Longrightarrow> 0 \<le> p95_idx n \<and> p95_idx n < int n"
proof -
  assume n: "0 < n"
  have "p95_idx n \<le> int n - 1" by (simp add: p95_idx_def)
  moreover have "0 \<le> p95_idx n" using n by (simp add: p95_idx_floor)
  ultimately show ?thesis by simp
qed

lemma p95_nonempty:
  "vals \<noteq> [] \<Longrightarrow> p95 vals = sort vals ! nat \<lfloor>0.95 * real (length vals - 1)\<rfloor>"
  by (simp add: p95_def p95_idx_floor Let_def)

lemma p95_in_set: "vals \<noteq> [] \<Longrightarrow> p95 vals \<in> set vals"
proof -
  assume ne: "vals \<noteq> []"
  then have "0 < length vals" by simp
  from p95_idx_range[OF this] have "nat (p95_idx (length vals)) < length (sort vals)"
    by (simp add: nat_less_iff)
  then have "sort vals ! nat (p95_idx (length vals)) \<in> set (sort vals)"
    by (rule nth_mem)
  then show ?thesis using ne by (simp add: p95_def Let_def)
qed

lemma push_outcome_fields [simp]:
  "state (push_outcome b ms ok) = state b"
  "last_opened_at_ms (push_outcome b ms ok) = last_opened_at_ms b"
  "sample_size (push_outcome b ms ok) = sample_size b"
  "max_fail_rate (push_outcome b ms ok) = max_fail_rate b"
  "cooldown_ms (push_outcome b ms ok) = cooldown_ms b"
  "max_p95_ms (push_outcome b ms ok) = max_p95_ms b"
  "name (push_outcome b ms ok) = name b"
  by (simp_all add: push_outcome_def Let_def)

lemma evaluate_fields [simp]:
  "outcomes (evaluate b now) = outcomes b"
  "sample_size (evaluate b now) = sample_size b"
  "max_fail_rate (evaluate b now) = max_fail_rate b"
  "cooldown_ms (evaluate b now) = cooldown_ms b"
  "max_p95_ms (evaluate b now) = max_p95_ms b"
  "name (evaluate b now) = name b"
  by (simp_all add: evaluate_def)

lemma report_fields [simp]:
  "outcomes (report b (ms, ok, now)) = outcomes (push_outcome b ms ok)"
  "sample_size (report b (ms, ok, now)) = sample_size b"
  "max_fail_rate (report b (ms, ok, now)) = max_fail_rate b"
  "cooldown_ms (report b (ms, ok, now)) = cooldown_ms b"
  "max_p95_ms (report b (ms, ok, now)) = max_p95_ms b"
  "name (report b (ms, ok, now)) = name b"
  by (simp_all add: success_def failure_def Let_def)

lemma report_open:
  "state b = Open \<Longrightarrow>
     state (report b (ms, ok, now)) = Open \<and>
     last_opened_at_ms (report b (ms, ok, now)) = last_opened_at_ms b"
  by (simp add: success_def failure_def evaluate_def Let_def)

lemma report_closed:
  assumes "state b = Closed"
  shows "report b (ms, ok, now) =
           (if trips (push_outcome b ms ok)
            then (push_outcome b ms ok)\<lparr>state := Open, last_opened_at_ms := now\<rparr>
            else push_outcome b ms ok)"
  using assms by (simp add: success_def failure_def evaluate_def Let_def)

lemma trips_state_update [simp]: "trips (b\<lparr>state := s\<rparr>) = trips b"
  by (simp add: trips_def)

lemma success_probe:
  assumes "state b = Probe"
  shows "success b ms now =
           (if trips (push_outcome b ms True)
            then (push_outcome b ms True)\<lparr>state := Open, last_opened_at_ms := now\<rparr>
            else (push_outcome b ms True)\<lparr>state := Closed\<rparr>)"
  using assms by (simp add: success_def evaluate_def Let_def)

lemma failure_probe:
  assumes "state b = Probe"
  shows "failure b ms now =
           (if trips (push_outcome b ms False)
            then (push_outcome b ms False)\<lparr>state := Open, last_opened_at_ms := now\<rparr>
            else push_outcome b ms False)"
  using assms by (simp add: failure_def evaluate_def Let_def)

subsection \<open>Window statistics\<close>

text \<open>
  C7 (as the code has it). For every window the derived p95 latency is \<open>0\<close> when the
  window is empty and otherwise the element at index \<open>floor(0.95 * (len - 1))\<close> of the
  durations sorted ascending (an index inside the list); the derived failure rate is \<open>0\<close>
  when the window is empty and otherwise the number of failed samples over \<open>len\<close>.
\<close>

theorem c7_window_statistics:
  "p95_ms os = (if os = [] then 0
                else sort (map fst os) ! nat \<lfloor>0.95 * real (length os - 1)\<rfloor>)
   \<and> (os \<noteq> [] \<longrightarrow> nat \<lfloor>0.95 * real (length os - 1)\<rfloor> < length os)
   \<and> fail_rate os = (if os = [] then 0
                     else real (length (filter (\<lambda>(ms, ok). \<not> ok) os)) / real (length os))"
proof (cases "os = []")
  case True
  then show ?thesis by (simp add: p95_ms_def p95_def fail_rate_def)
next
  case False
  then have pos: "0 < length os" by simp
  have ne: "map fst os \<noteq> []" using False by simp
  have f1: "p95_ms os = sort (map fst os) ! nat \<lfloor>0.95 * real (length os - 1)\<rfloor>"
    using p95_nonempty[OF ne] unfolding p95_ms_def length_map .
  have "nat (p95_idx (length os)) < length os"
    using p95_idx_range[OF pos] by (simp add: nat_less_iff)
  then have f2: "nat \<lfloor>0.95 * real (length os - 1)\<rfloor> < length os"
    unfolding p95_idx_floor[OF pos] .
  have f3: "fail_rate os = real (length (filter (\<lambda>(ms, ok). \<not> ok) os)) / real (length os)"
    using False unfolding fail_rate_def fails_def by (rule if_P)
  show ?thesis unfolding if_not_P[OF False] using f1 f2 f3 by blast
qed

theorem c7_window_statistics_witness:
  "p95_ms [(100, True), (2000, False)] = 100 \<and> fail_rate [(100, True), (2000, False)] = 1 / 2"
  using c7_window_statistics[of "[(100, True), (2000, False)]"] by simp

text \<open>
  C7 as stated fails on a window of two samples: the code takes index \<open>0\<close>, the smaller
  duration, where the nearest rank \<open>ceil(0.95 * 2) - 1 = 1\<close> is the larger one.
\<close>

theorem c7_nearest_rank_counterexample:
  "p95_ms [(100, True), (2000, False)] = 100
   \<and> nearest_rank_p95 (map fst [(100, True), (2000, False)]) = 2000
   \<and> p95_ms [(100, True), (2000, False)] \<noteq> nearest_rank_p95 (map fst [(100, True), (2000, False)])"
  by (simp add: p95_ms_def p95_def p95_idx_def py_int_def nearest_rank_p95_def)

subsection \<open>Runs of reports\<close>

lemma success_fields [simp]:
  "outcomes (success b ms now) = outcomes (push_outcome b ms True)"
  "sample_size (success b ms now) = sample_size b"
  "max_fail_rate (success b ms now) = max_fail_rate b"
  "cooldown_ms (success b ms now) = cooldown_ms b"
  "max_p95_ms (success b ms now) = max_p95_ms b"
  "name (success b ms now) = name b"
  by (simp_all add: success_def Let_def)

lemma failure_fields [simp]:
  "outcomes (failure b ms now) = outcomes (push_outcome b ms False)"
  "sample_size (failure b ms now) = sample_size b"
  "max_fail_rate (failure b ms now) = max_fail_rate b"
  "cooldown_ms (failure b ms now) = cooldown_ms b"
  "max_p95_ms (failure b ms now) = max_p95_ms b"
  "name (failure b ms now) = name b"
  by (simp_all add: failure_def)

lemma feed_Nil [simp]: "feed b [] = b"
  by (simp add: feed_def)

lemma feed_Cons [simp]: "feed b (e # evs) = feed (report b e) evs"
  by (simp add: feed_def)

lemma feed_snoc: "feed b (evs @ [e]) = report (feed b evs) e"
  by (simp add: feed_def)

lemma feed_open: "state b = Open \<Longrightarrow> state (feed b evs) = Open"
proof (induction evs arbitrary: b)
  case Nil
  then show ?case by simp
next
  case (Cons e evs)
  obtain ms ok now where e: "e = (ms, ok, now)" by (cases e) auto
  have "state (report b e) = Open" unfolding e using report_open[OF Cons.prems] by blast
  then show ?case using Cons.IH by simp
qed

lemma set_push_outcome:
  "set (outcomes (push_outcome b ms ok)) \<subseteq> insert (ms, ok) (set (outcomes b))"
proof -
  have "set (tl (outcomes b @ [(ms, ok)])) \<subseteq> set (outcomes b @ [(ms, ok)])"
    by (rule subsetI) (rule list.set_sel(2), simp_all)
  then show ?thesis by (auto simp: push_outcome_def Let_def)
qed

lemma feed_all_ok:
  "\<forall>s \<in> set (outcomes b). snd s \<Longrightarrow> \<forall>e \<in> set evs. fst (snd e)
     \<Longrightarrow> \<forall>s \<in> set (outcomes (feed b evs)). snd s"
proof (induction evs arbitrary: b)
  case Nil
  then show ?case by simp
next
  case (Cons e evs)
  obtain ms ok now where e: "e = (ms, ok, now)" by (cases e) auto
  have ok: "ok" using Cons.prems(2) e by simp
  have "\<forall>s \<in> set (outcomes (report b e)). snd s"
    unfolding e using set_push_outcome[of b ms ok] Cons.prems(1) ok by auto
  then show ?case using Cons.IH Cons.prems(2) by simp
qed

lemma fail_rate_all_ok: "\<forall>s \<in> set os. snd s \<Longrightarrow> fail_rate os = 0"
proof -
  assume a: "\<forall>s \<in> set os. snd s"
  have "filter (\<lambda>(ms, ok). \<not> ok) os = []"
    using a by (auto simp: filter_empty_conv)
  then show ?thesis by (simp add: fail_rate_def fails_def)
qed

lemma fresh_slow_success_trips:
  assumes n: "1 \<le> n"
  shows "state (success (CircuitBreaker n rate cd 1000 nm) 1200 now) = Open"
proof -
  let ?b = "CircuitBreaker n rate cd 1000 nm"
  have w: "outcomes (push_outcome ?b 1200 True) = [(1200, True)]"
    using n by (simp add: push_outcome_def CircuitBreaker_def Let_def)
  have p: "p95_ms [(1200, True)] = 1200"
    by (simp add: p95_ms_def p95_def p95_idx_def py_int_def)
  have m: "max_p95_ms (push_outcome ?b 1200 True) = 1000"
    by (simp add: CircuitBreaker_def)
  have "trips (push_outcome ?b 1200 True)"
    unfolding trips_def w m p by simp
  moreover have "state ?b = Closed" by (simp add: CircuitBreaker_def)
  ultimately show ?thesis
    using report_closed[of ?b 1200 True now] by simp
qed

lemma twenty_slow_successes:
  assumes n: "1 \<le> n" and len: "length ts = 20"
  shows "state (feed (CircuitBreaker n rate cd 1000 nm) (map (\<lambda>t. (1200, True, t)) ts)) = Open"
    and "fail_rate (outcomes (feed (CircuitBreaker n rate cd 1000 nm)
                                (map (\<lambda>t. (1200, True, t)) ts))) = 0"
proof -
  let ?b = "CircuitBreaker n rate cd 1000 nm"
  obtain t ts' where ts: "ts = t # ts'" using len by (cases ts) auto
  have "state (report ?b (1200, True, t)) = Open"
    using fresh_slow_success_trips[OF n] by simp
  then show "state (feed ?b (map (\<lambda>t. (1200, True, t)) ts)) = Open"
    unfolding ts by (simp add: feed_open del: report.simps)
  have "\<forall>s \<in> set (outcomes (feed ?b (map (\<lambda>t. (1200, True, t)) ts))). snd s"
    by (rule feed_all_ok) (simp_all add: CircuitBreaker_def)
  then show "fail_rate (outcomes (feed ?b (map (\<lambda>t. (1200, True, t)) ts))) = 0"
    by (rule fail_rate_all_ok)
qed

lemma new_breaker_trips:
  "trips (CircuitBreaker n rate cd p nm) \<longleftrightarrow> rate \<le> 0 \<or> real_of_int p \<le> 0"
  by (simp add: trips_def CircuitBreaker_def fail_rate_def p95_ms_def p95_def)

subsection \<open>The trip rule of a closed breaker\<close>

lemma fail_rate_explicit:
  "fail_rate os = (if os = [] then 0
                   else real (length (filter (\<lambda>(d, k). \<not> k) os)) / real (length os))"
  by (simp add: fail_rate_def fails_def)

lemma p95_ms_explicit:
  "p95_ms os = (if os = [] then 0
                else sort (map fst os) ! nat \<lfloor>0.95 * real (length os - 1)\<rfloor>)"
proof (cases "os = []")
  case True
  then show ?thesis by (simp add: p95_ms_def p95_def)
next
  case False
  then have ne: "map fst os \<noteq> []" by simp
  show ?thesis
    unfolding if_not_P[OF False] p95_ms_def using p95_nonempty[OF ne] unfolding length_map .
qed

lemma push_outcome_explicit:
  "outcomes (push_outcome b ms ok)
     = (if int (length (outcomes b)) + 1 > sample_size b
        then tl (outcomes b @ [(ms, ok)]) else outcomes b @ [(ms, ok)])"
  by (simp add: push_outcome_def Let_def)

text \<open>
  C2 (as the code has it). For a breaker in closed state, a report through \<open>success\<close>
  (\<open>ok\<close>) or \<open>failure\<close> (\<open>\<not> ok\<close>) appends the sample to the window, dropping the oldest
  one beyond the capacity, and evaluates two statistics of the updated window: the failure
  rate, failed samples over length (\<open>0\<close> if empty), and the p95 latency, the element at
  index \<open>floor(0.95 * (len - 1))\<close> of the durations sorted ascending (\<open>0\<close> if empty). The
  breaker is open with \<open>last_opened_at_ms = now\<close> exactly when the failure rate has reached
  \<open>max_fail_rate\<close> or that p95 has reached \<open>max_p95_ms\<close>, and otherwise stays closed with
  its old timestamp. In particular a new breaker of capacity at least one with
  \<open>max_p95_ms = 1000\<close>, fed twenty successes of 1200 ms, ends open while the failure rate
  of its window is \<open>0\<close>. An empty window has failure rate \<open>0\<close> and p95 \<open>0\<close>, so the trip
  condition holds of a new breaker only if a threshold is \<open>\<le> 0\<close>.
\<close>

theorem c2_closed_trip_rule:
  "(state b = Closed \<longrightarrow>
      (let b' = (if ok then success b ms now else failure b ms now);
           win = outcomes b';
           fr = (if win = [] then 0
                 else real (length (filter (\<lambda>(d, k). \<not> k) win)) / real (length win));
           pc = (if win = [] then 0
                 else sort (map fst win) ! nat \<lfloor>0.95 * real (length win - 1)\<rfloor>)
       in win = (if int (length (outcomes b)) + 1 > sample_size b
                 then tl (outcomes b @ [(ms, ok)]) else outcomes b @ [(ms, ok)])
          \<and> fail_rate win = fr \<and> p95_ms win = pc
          \<and> (if fr \<ge> max_fail_rate b \<or> pc \<ge> max_p95_ms b
             then state b' = Open \<and> last_opened_at_ms b' = now
             else state b' = Closed \<and> last_opened_at_ms b' = last_opened_at_ms b)))
   \<and> (1 \<le> n \<and> length ts = 20 \<longrightarrow>
        state (feed (CircuitBreaker n rate cd 1000 nm) (map (\<lambda>t. (1200, True, t)) ts)) = Open
        \<and> fail_rate (outcomes (feed (CircuitBreaker n rate cd 1000 nm)
                                   (map (\<lambda>t. (1200, True, t)) ts))) = 0)
   \<and> fail_rate [] = 0 \<and> p95_ms [] = 0
   \<and> (trips (CircuitBreaker n rate cd p nm) \<longleftrightarrow> rate \<le> 0 \<or> real_of_int p \<le> 0)"
proof (intro conjI impI)
  assume c: "state b = Closed"
  define b' where "b' = (if ok then success b ms now else failure b ms now)"
  define win where "win = outcomes b'"
  have r: "b' = report b (ms, ok, now)" by (simp add: b'_def)
  have w: "win = outcomes (push_outcome b ms ok)"
    unfolding win_def r by (rule report_fields)
  have t: "trips (push_outcome b ms ok)
             \<longleftrightarrow> fail_rate win \<ge> max_fail_rate b \<or> p95_ms win \<ge> max_p95_ms b"
    by (simp add: trips_def w)
  have st: "if fail_rate win \<ge> max_fail_rate b \<or> p95_ms win \<ge> max_p95_ms b
            then state b' = Open \<and> last_opened_at_ms b' = now
            else state b' = Closed \<and> last_opened_at_ms b' = last_opened_at_ms b"
    unfolding r report_closed[OF c] t[symmetric] using c by simp
  have "win = (if int (length (outcomes b)) + 1 > sample_size b
                 then tl (outcomes b @ [(ms, ok)]) else outcomes b @ [(ms, ok)])
          \<and> fail_rate win = fail_rate win \<and> p95_ms win = p95_ms win
          \<and> (if fail_rate win \<ge> max_fail_rate b \<or> p95_ms win \<ge> max_p95_ms b
             then state b' = Open \<and> last_opened_at_ms b' = now
             else state b' = Closed \<and> last_opened_at_ms b' = last_opened_at_ms b)"
    using st w push_outcome_explicit[of b ms ok] by simp
  then show "let b' = (if ok then success b ms now else failure b ms now);
           win = outcomes b';
           fr = (if win = [] then 0
                 else real (length (filter (\<lambda>(d, k). \<not> k) win)) / real (length win));
           pc = (if win = [] then 0
                 else sort (map fst win) ! nat \<lfloor>0.95 * real (length win - 1)\<rfloor>)
       in win = (if int (length (outcomes b)) + 1 > sample_size b
                 then tl (outcomes b @ [(ms, ok)]) else outcomes b @ [(ms, ok)])
          \<and> fail_rate win = fr \<and> p95_ms win = pc
          \<and> (if fr \<ge> max_fail_rate b \<or> pc \<ge> max_p95_ms b
             then state b' = Open \<and> last_opened_at_ms b' = now
             else state b' = Closed \<and> last_opened_at_ms b' = last_opened_at_ms b)"
    unfolding Let_def b'_def[symmetric] win_def[symmetric]
      fail_rate_explicit[symmetric] p95_ms_explicit[symmetric] .
next
  assume "1 \<le> n \<and> length ts = 20"
  then show "state (feed (CircuitBreaker n rate cd 1000 nm) (map (\<lambda>t. (1200, True, t)) ts)) = Open"
    using twenty_slow_successes(1) by blast
next
  assume "1 \<le> n \<and> length ts = 20"
  then show "fail_rate (outcomes (feed (CircuitBreaker n rate cd 1000 nm)
                                   (map (\<lambda>t. (1200, True, t)) ts))) = 0"
    using twenty_slow_successes(2) by blast
next
  show "fail_rate [] = 0" by (simp add: fail_rate_def)
next
  show "p95_ms [] = 0" by (simp add: p95_ms_def p95_def)
next
  show "trips (CircuitBreaker n rate cd p nm) \<longleftrightarrow> rate \<le> 0 \<or> real_of_int p \<le> 0"
    by (rule new_breaker_trips)
qed


theorem c2_closed_trip_rule_witness:
  "state (feed (CircuitBreaker 40 0.4 15000 400 ''b'') [(100, True, 1), (2000, True, 2)]) = Closed
   \<and> state (success (feed (CircuitBreaker 40 0.4 15000 400 ''b'')
                        [(100, True, 1), (2000, True, 2)]) 500 3) = Open
   \<and> last_opened_at_ms (success (feed (CircuitBreaker 40 0.4 15000 400 ''b'')
                        [(100, True, 1), (2000, True, 2)]) 500 3) = 3
   \<and> state (success (feed (CircuitBreaker 40 0.4 15000 1000 ''b'')
                        [(100, True, 1), (2000, True, 2)]) 500 3) = Closed
   \<and> state (failure (CircuitBreaker 40 0.4 15000 1000 ''b'') 800 7) = Open
   \<and> state (feed (CircuitBreaker 40 0.4 15000 1000 ''b'')
              (map (\<lambda>t. (1200, True, t)) [1, 2, 3, 4, 5, 6, 7, 8, 9, 10, 11, 12, 13, 14, 15,
                                            16, 17, 18, 19, 20])) = Open
   \<and> \<not> trips (CircuitBreaker 40 0.4 15000 1000 ''b'')"
proof -
  define cfg where "cfg = (\<lambda>m s t os. \<lparr>state = s, last_opened_at_ms = t, outcomes = os,
      sample_size = 40, max_fail_rate = 0.4, cooldown_ms = 15000, max_p95_ms = m,
      name = ''b''\<rparr>)"
  define ts :: "real list"
    where "ts = [1, 2, 3, 4, 5, 6, 7, 8, 9, 10, 11, 12, 13, 14, 15, 16, 17, 18, 19, 20]"
  note ev = failure_def success_def push_outcome_def evaluate_def trips_def fail_rate_def
    fails_def p95_ms_def p95_def p95_idx_def py_int_def Let_def cfg_def
  have n4: "CircuitBreaker 40 0.4 15000 400 ''b'' = cfg 400 Closed 0 []"
    and n10: "CircuitBreaker 40 0.4 15000 1000 ''b'' = cfg 1000 Closed 0 []"
    by (simp_all add: CircuitBreaker_def cfg_def)
  have a1: "success (cfg 400 Closed 0 []) 100 1 = cfg 400 Closed 0 [(100, True)]"
    and a2: "success (cfg 400 Closed 0 [(100, True)]) 2000 2
               = cfg 400 Closed 0 [(100, True), (2000, True)]"
    and b1: "success (cfg 1000 Closed 0 []) 100 1 = cfg 1000 Closed 0 [(100, True)]"
    and b2: "success (cfg 1000 Closed 0 [(100, True)]) 2000 2
               = cfg 1000 Closed 0 [(100, True), (2000, True)]"
    by (simp_all add: ev)
  have f4: "feed (CircuitBreaker 40 0.4 15000 400 ''b'') [(100, True, 1), (2000, True, 2)]
              = cfg 400 Closed 0 [(100, True), (2000, True)]"
    unfolding n4 feed_Cons feed_Nil report.simps if_True a1 a2 by (rule refl)
  have f10: "feed (CircuitBreaker 40 0.4 15000 1000 ''b'') [(100, True, 1), (2000, True, 2)]
              = cfg 1000 Closed 0 [(100, True), (2000, True)]"
    unfolding n10 feed_Cons feed_Nil report.simps if_True b1 b2 by (rule refl)
  have fld: "state (cfg m s t os) = s" "outcomes (cfg m s t os) = os"
    "sample_size (cfg m s t os) = 40" "max_fail_rate (cfg m s t os) = 0.4"
    "max_p95_ms (cfg m s t os) = m" "last_opened_at_ms (cfg m s t os) = t" for m s t os
    by (simp_all add: cfg_def)
  have srt: "sort [100, 2000, 500 :: real] = [100, 500, 2000]" by simp
  have idx: "nat \<lfloor>(0.95::real) * real (length [(100::real, True), (2000, True), (500, True)] - 1)\<rfloor> = 1"
    by simp
  have c4: "state (cfg 400 Closed 0 [(100, True), (2000, True)]) = Closed"
    and c10: "state (cfg 1000 Closed 0 [(100, True), (2000, True)]) = Closed"
    and c0: "state (cfg 1000 Closed 0 []) = Closed"
    by (simp_all add: fld)
  have w4: "state (success (cfg 400 Closed 0 [(100, True), (2000, True)]) 500 3) = Open
            \<and> last_opened_at_ms (success (cfg 400 Closed 0 [(100, True), (2000, True)]) 500 3) = 3"
    using c2_closed_trip_rule[where b = "cfg 400 Closed 0 [(100, True), (2000, True)]" and ok = True
        and ms = 500 and now = 3, THEN conjunct1, THEN mp, OF c4]
    by (simp add: Let_def fld)
  have w10: "state (success (cfg 1000 Closed 0 [(100, True), (2000, True)]) 500 3) = Closed"
    using c2_closed_trip_rule[where b = "cfg 1000 Closed 0 [(100, True), (2000, True)]" and ok = True
        and ms = 500 and now = 3, THEN conjunct1, THEN mp, OF c10]
    by (simp add: Let_def fld)
  have wf: "state (failure (cfg 1000 Closed 0 []) 800 7) = Open"
    using c2_closed_trip_rule[where b = "cfg 1000 Closed 0 []" and ok = False
        and ms = 800 and now = 7, THEN conjunct1, THEN mp, OF c0]
    by (simp add: Let_def fld)
  have len: "1 \<le> (40::int) \<and> length ts = 20" by (simp add: ts_def)
  have d: "state (feed (CircuitBreaker 40 0.4 15000 1000 ''b'') (map (\<lambda>t. (1200, True, t)) ts)) = Open"
    using c2_closed_trip_rule[where n = 40 and ts = ts and rate = "0.4" and cd = 15000 and nm = "''b''",
            THEN conjunct2, THEN conjunct1, THEN mp, OF len]
    by (rule conjunct1)
  have "trips (CircuitBreaker 40 0.4 15000 1000 ''b'') \<longleftrightarrow> (0.4::real) \<le> 0 \<or> real_of_int 1000 \<le> 0"
    using c2_closed_trip_rule[where n = 40 and rate = "0.4" and cd = 15000 and nm = "''b''" and p = 1000]
    by blast
  then have e: "\<not> trips (CircuitBreaker 40 0.4 15000 1000 ''b'')" by simp
  show ?thesis
    unfolding f4 f10 using c4 w4 w10 wf[folded n10] d e unfolding ts_def by blast
qed

text \<open>
  C2 read with the nearest-rank percentile fails. A new breaker with \<open>max_p95_ms = 1000\<close>
  is reported successes of 100 ms and 2000 ms. It is closed before the second report; the
  window of two has failure rate 0 and nearest-rank p95 2000, which has reached 1000; yet
  the breaker stays closed, because the code's p95 of that window is 100.
\<close>

theorem c2_nearest_rank_trip_counterexample:
  "state (feed (CircuitBreaker 40 0.4 15000 1000 ''b'') [(100, True, 1)]) = Closed
   \<and> outcomes (feed (CircuitBreaker 40 0.4 15000 1000 ''b'') [(100, True, 1), (2000, True, 2)])
       = [(100, True), (2000, True)]
   \<and> nearest_rank_p95 (map fst [(100, True), (2000, True)]) = 2000
   \<and> max_p95_ms (feed (CircuitBreaker 40 0.4 15000 1000 ''b'')
                    [(100, True, 1), (2000, True, 2)]) = 1000
   \<and> state (feed (CircuitBreaker 40 0.4 15000 1000 ''b'') [(100, True, 1), (2000, True, 2)])
       = Closed
   \<and> state (feed (CircuitBreaker 40 0.4 15000 1000 ''b'') [(100, True, 1), (2000, True, 2)])
       \<noteq> Open"
proof -
  define cfg where "cfg = (\<lambda>s t os. \<lparr>state = s, last_opened_at_ms = t, outcomes = os,
      sample_size = 40, max_fail_rate = 0.4, cooldown_ms = 15000, max_p95_ms = 1000,
      name = ''b''\<rparr>)"
  note ev = failure_def success_def push_outcome_def evaluate_def trips_def fail_rate_def
    fails_def p95_ms_def p95_def p95_idx_def py_int_def Let_def cfg_def
  have n: "CircuitBreaker 40 0.4 15000 1000 ''b'' = cfg Closed 0 []"
    by (simp add: CircuitBreaker_def cfg_def)
  have b1: "success (cfg Closed 0 []) 100 1 = cfg Closed 0 [(100, True)]"
    and b2: "success (cfg Closed 0 [(100, True)]) 2000 2
               = cfg Closed 0 [(100, True), (2000, True)]"
    by (simp_all add: ev)
  have f1: "feed (CircuitBreaker 40 0.4 15000 1000 ''b'') [(100, True, 1)]
              = cfg Closed 0 [(100, True)]"
    unfolding n feed_Cons feed_Nil report.simps if_True b1 by (rule refl)
  have f2: "feed (CircuitBreaker 40 0.4 15000 1000 ''b'') [(100, True, 1), (2000, True, 2)]
              = cfg Closed 0 [(100, True), (2000, True)]"
    unfolding n feed_Cons feed_Nil report.simps if_True b1 b2 by (rule refl)
  have nr: "nearest_rank_p95 (map fst [(100::real, True), (2000, True)]) = 2000"
    by (simp add: nearest_rank_p95_def)
  show ?thesis unfolding f1 f2 nr by (simp add: cfg_def)
qed

subsection \<open>Probe outcomes\<close>

text \<open>
  What a report does to a breaker in probe state, for every window. A success closes the
  breaker only if the updated window does not meet the trip condition; if it does, the
  evaluation that follows opens the breaker again at once. A failure reopens the breaker
  only if the updated window meets the trip condition; if it does not, the breaker stays
  in probe state.
\<close>

lemma probe_success_state:
  "state b = Probe \<Longrightarrow>
     state (success b ms now) = (if trips (push_outcome b ms True) then Open else Closed)"
  by (simp add: success_probe)

lemma probe_failure_state:
  "state b = Probe \<Longrightarrow>
     state (failure b ms now) = (if trips (push_outcome b ms False) then Open else Probe)"
  by (simp add: failure_probe)

text \<open>
  C3 (the code at a failing input). Claim C3 says that from probe state one success leaves
  the breaker closed whatever the window holds. The supplier breaker, new, is reported one
  failure of 900 ms at time 0 and opens; after the cooldown it enters probe state at time
  15000; the probe call succeeds in 100 ms at time 15100. The window is then one failure
  and one success, the failure rate 0.5 has reached 0.4, and the breaker is open again,
  opened at 15100.
\<close>

theorem c3_probe_success_reopens:
  "state (failure (CircuitBreaker 40 0.4 15000 1200 ''supplier_us-east'') 900 0) = Open
   \<and> state (enter_probe (failure (CircuitBreaker 40 0.4 15000 1200 ''supplier_us-east'') 900 0)
               15000) = Probe
   \<and> outcomes (success (enter_probe
                 (failure (CircuitBreaker 40 0.4 15000 1200 ''supplier_us-east'') 900 0) 15000)
               100 15100) = [(900, False), (100, True)]
   \<and> state (success (enter_probe
                 (failure (CircuitBreaker 40 0.4 15000 1200 ''supplier_us-east'') 900 0) 15000)
               100 15100) = Open
   \<and> last_opened_at_ms (success (enter_probe
                 (failure (CircuitBreaker 40 0.4 15000 1200 ''supplier_us-east'') 900 0) 15000)
               100 15100) = 15100"
proof -
  define cfg where "cfg = (\<lambda>s t os. \<lparr>state = s, last_opened_at_ms = t, outcomes = os,
      sample_size = 40, max_fail_rate = 0.4, cooldown_ms = 15000, max_p95_ms = 1200,
      name = ''supplier_us-east''\<rparr>)"
  note ev = failure_def success_def push_outcome_def evaluate_def trips_def fail_rate_def
    fails_def p95_ms_def p95_def p95_idx_def py_int_def Let_def cfg_def
  have s0: "CircuitBreaker 40 0.4 15000 1200 ''supplier_us-east'' = cfg Closed 0 []"
    by (simp add: CircuitBreaker_def cfg_def)
  have s1: "failure (cfg Closed 0 []) 900 0 = cfg Open 0 [(900, False)]"
    by (simp add: ev)
  have s2: "enter_probe (cfg Open 0 [(900, False)]) 15000 = cfg Probe 0 [(900, False)]"
    by (simp add: enter_probe_def can_probe_def cfg_def)
  have s3: "success (cfg Probe 0 [(900, False)]) 100 15100
              = cfg Open 15100 [(900, False), (100, True)]"
    by (simp add: ev)
  have st: "state (cfg s t os) = s" "last_opened_at_ms (cfg s t os) = t"
    "outcomes (cfg s t os) = os" for s t os
    by (simp_all add: cfg_def)
  show ?thesis unfolding s0 s1 s2 s3 st by simp
qed

text \<open>
  C4 (the code at a failing input). Claim C4 says that from probe state one failure leaves
  the breaker open with a fresh timestamp whatever the window holds. The supplier breaker,
  new, is reported one failure of 900 ms at time 0 and opens; four successes of 100 ms,
  results of calls that were already under way, are reported while it is open; after the
  cooldown it enters probe state at time 15000; the probe call fails at time 15900. The
  window is then two failures in six samples, rate 1/3 below 0.4, with p95 900 below
  1200: the breaker is still in probe state and its timestamp is still 0.
\<close>

theorem c4_probe_failure_stays_probe:
  "state (feed (CircuitBreaker 40 0.4 15000 1200 ''supplier_us-east'')
            [(900, False, 0), (100, True, 10), (100, True, 20), (100, True, 30),
             (100, True, 40)]) = Open
   \<and> state (enter_probe (feed (CircuitBreaker 40 0.4 15000 1200 ''supplier_us-east'')
            [(900, False, 0), (100, True, 10), (100, True, 20), (100, True, 30),
             (100, True, 40)]) 15000) = Probe
   \<and> state (failure (enter_probe (feed (CircuitBreaker 40 0.4 15000 1200 ''supplier_us-east'')
            [(900, False, 0), (100, True, 10), (100, True, 20), (100, True, 30),
             (100, True, 40)]) 15000) 900 15900) = Probe
   \<and> last_opened_at_ms (failure (enter_probe
          (feed (CircuitBreaker 40 0.4 15000 1200 ''supplier_us-east'')
            [(900, False, 0), (100, True, 10), (100, True, 20), (100, True, 30),
             (100, True, 40)]) 15000) 900 15900) = 0
   \<and> \<not> can_probe (failure (enter_probe
          (feed (CircuitBreaker 40 0.4 15000 1200 ''supplier_us-east'')
            [(900, False, 0), (100, True, 10), (100, True, 20), (100, True, 30),
             (100, True, 40)]) 15000) 900 15900) 16000"
proof -
  define b0 where "b0 = CircuitBreaker 40 0.4 15000 1200 ''supplier_us-east''"
  define cfg where "cfg = (\<lambda>s t os. \<lparr>state = s, last_opened_at_ms = t, outcomes = os,
      sample_size = 40, max_fail_rate = 0.4, cooldown_ms = 15000, max_p95_ms = 1200,
      name = ''supplier_us-east''\<rparr>)"
  note ev = failure_def success_def push_outcome_def evaluate_def trips_def fail_rate_def
    fails_def p95_ms_def p95_def p95_idx_def py_int_def Let_def cfg_def
  have s0: "b0 = cfg Closed 0 []" by (simp add: b0_def CircuitBreaker_def cfg_def)
  have s1: "failure (cfg Closed 0 []) 900 0 = cfg Open 0 [(900, False)]"
    by (simp add: ev)
  have s2: "success (cfg Open 0 [(900, False)]) 100 10 = cfg Open 0 [(900, False), (100, True)]"
    by (simp add: ev)
  have s3: "success (cfg Open 0 [(900, False), (100, True)]) 100 20
              = cfg Open 0 [(900, False), (100, True), (100, True)]"
    by (simp add: ev)
  have s4: "success (cfg Open 0 [(900, False), (100, True), (100, True)]) 100 30
              = cfg Open 0 [(900, False), (100, True), (100, True), (100, True)]"
    by (simp add: ev)
  have s5: "success (cfg Open 0 [(900, False), (100, True), (100, True), (100, True)]) 100 40
              = cfg Open 0 [(900, False), (100, True), (100, True), (100, True), (100, True)]"
    by (simp add: ev)
  have fd: "feed b0 [(900, False, 0), (100, True, 10), (100, True, 20), (100, True, 30),
                     (100, True, 40)]
              = cfg Open 0 [(900, False), (100, True), (100, True), (100, True), (100, True)]"
    by (simp add: s0 s1 s2 s3 s4 s5)
  have s6: "enter_probe (cfg Open 0 [(900, False), (100, True), (100, True), (100, True),
                                     (100, True)]) 15000
              = cfg Probe 0 [(900, False), (100, True), (100, True), (100, True), (100, True)]"
    by (simp add: enter_probe_def can_probe_def cfg_def)
  have s7: "failure (cfg Probe 0 [(900, False), (100, True), (100, True), (100, True),
                                  (100, True)]) 900 15900
              = cfg Probe 0 [(900, False), (100, True), (100, True), (100, True), (100, True),
                             (900, False)]"
    by (simp add: ev)
  have st: "state (cfg s t os) = s" "last_opened_at_ms (cfg s t os) = t" for s t os
    by (simp_all add: cfg_def)
  have cp: "\<not> can_probe (cfg Probe t os) 16000" for t os
    by (simp add: can_probe_def cfg_def)
  show ?thesis
    unfolding b0_def[symmetric] fd s6 s7 st using cp by simp
qed

subsection \<open>The open state\<close>

text \<open>
  C10. While a breaker is open, \<open>success\<close> and \<open>failure\<close> change neither its state nor
  \<open>last_opened_at_ms\<close>; the sample is still pushed into the window. \<open>enter_probe\<close>
  changes the breaker only when it is open and the cooldown has elapsed, and then only
  its state, to probe; from closed or probe state, or before the cooldown has elapsed, it
  returns the breaker as it is.
\<close>

theorem c10_open_is_left_only_by_probe:
  "(state b = Open \<longrightarrow>
       state (success b ms now) = Open
     \<and> last_opened_at_ms (success b ms now) = last_opened_at_ms b
     \<and> outcomes (success b ms now) = outcomes (push_outcome b ms True)
     \<and> state (failure b ms now) = Open
     \<and> last_opened_at_ms (failure b ms now) = last_opened_at_ms b
     \<and> outcomes (failure b ms now) = outcomes (push_outcome b ms False))
   \<and> (state b = Open \<and> now - last_opened_at_ms b \<ge> cooldown_ms b
        \<longrightarrow> enter_probe b now = b\<lparr>state := Probe\<rparr>)
   \<and> (state b \<noteq> Open \<or> now - last_opened_at_ms b < cooldown_ms b
        \<longrightarrow> enter_probe b now = b)"
proof (intro conjI impI)
  assume o: "state b = Open"
  show "state (success b ms now) = Open"
    using report_open[OF o, of ms True now] by simp
  show "last_opened_at_ms (success b ms now) = last_opened_at_ms b"
    using report_open[OF o, of ms True now] by simp
  show "state (failure b ms now) = Open"
    using report_open[OF o, of ms False now] by simp
  show "last_opened_at_ms (failure b ms now) = last_opened_at_ms b"
    using report_open[OF o, of ms False now] by simp
next
  show "outcomes (success b ms now) = outcomes (push_outcome b ms True)" by simp
next
  show "outcomes (failure b ms now) = outcomes (push_outcome b ms False)" by simp
next
  assume "state b = Open \<and> now - last_opened_at_ms b \<ge> cooldown_ms b"
  then show "enter_probe b now = b\<lparr>state := Probe\<rparr>"
    by (simp add: enter_probe_def can_probe_def)
next
  assume "state b \<noteq> Open \<or> now - last_opened_at_ms b < cooldown_ms b"
  then show "enter_probe b now = b"
    by (auto simp: enter_probe_def can_probe_def)
qed

theorem c10_open_is_left_only_by_probe_witness:
  "state (success (CircuitBreaker 40 0.4 15000 1200 ''b''\<lparr>state := Open, last_opened_at_ms := 5\<rparr>)
            100 9) = Open
   \<and> last_opened_at_ms (failure
        (CircuitBreaker 40 0.4 15000 1200 ''b''\<lparr>state := Open, last_opened_at_ms := 5\<rparr>)
        900 9) = 5
   \<and> state (enter_probe
        (CircuitBreaker 40 0.4 15000 1200 ''b''\<lparr>state := Open, last_opened_at_ms := 5\<rparr>)
        15005) = Probe
   \<and> enter_probe (CircuitBreaker 40 0.4 15000 1200 ''b''\<lparr>state := Open, last_opened_at_ms := 5\<rparr>)
        15004
      = CircuitBreaker 40 0.4 15000 1200 ''b''\<lparr>state := Open, last_opened_at_ms := 5\<rparr>
   \<and> enter_probe (CircuitBreaker 40 0.4 15000 1200 ''b'') 15005
      = CircuitBreaker 40 0.4 15000 1200 ''b''"
proof -
  define b where "b = CircuitBreaker 40 0.4 15000 1200 ''b''\<lparr>state := Open, last_opened_at_ms := 5\<rparr>"
  define c where "c = CircuitBreaker 40 0.4 15000 1200 ''b''"
  have o: "state b = Open" by (simp add: b_def)
  have f: "last_opened_at_ms b = 5" "cooldown_ms b = 15000"
    by (simp_all add: b_def CircuitBreaker_def)
  have a1: "state (success b 100 9) = Open"
    using c10_open_is_left_only_by_probe[of b 100 9] o by blast
  have a2: "last_opened_at_ms (failure b 900 9) = 5"
    using c10_open_is_left_only_by_probe[of b 900 9] o f by simp
  have "enter_probe b 15005 = b\<lparr>state := Probe\<rparr>"
    using c10_open_is_left_only_by_probe[of b 100 15005] o f by simp
  then have a3: "state (enter_probe b 15005) = Probe" by simp
  have a4: "enter_probe b 15004 = b"
    using c10_open_is_left_only_by_probe[of b 100 15004] o f by simp
  have "state c \<noteq> Open" by (simp add: c_def CircuitBreaker_def)
  then have a5: "enter_probe c 15005 = c"
    using c10_open_is_left_only_by_probe[of c 100 15005] by blast
  show ?thesis using a1 a2 a3 a4 a5 unfolding b_def c_def by blast
qed

subsection \<open>Runs that start closed\<close>

lemma samples_simps [simp]:
  "samples [] = []"
  "samples ((ms, ok, now) # evs) = (ms, ok) # samples evs"
  "samples (evs @ evs') = samples evs @ samples evs'"
  "length (samples evs) = length evs"
  by (simp_all add: samples_def)

lemma feed_config [simp]:
  "sample_size (feed b evs) = sample_size b"
  "max_fail_rate (feed b evs) = max_fail_rate b"
  "max_p95_ms (feed b evs) = max_p95_ms b"
proof (induction evs arbitrary: b)
  case Nil
  { case 1 show ?case by simp }
  { case 2 show ?case by simp }
  { case 3 show ?case by simp }
next
  case (Cons e evs)
  obtain ms ok now where e: "e = (ms, ok, now)" by (cases e) auto
  { case 1 show ?case unfolding e feed_Cons Cons.IH(1) by (rule report_fields) }
  { case 2 show ?case unfolding e feed_Cons Cons.IH(2) by (rule report_fields) }
  { case 3 show ?case unfolding e feed_Cons Cons.IH(3) by (rule report_fields) }
qed

lemma push_outcome_no_eviction:
  "int (length (outcomes b)) + 1 \<le> sample_size b
     \<Longrightarrow> outcomes (push_outcome b ms ok) = outcomes b @ [(ms, ok)]"
  by (simp add: push_outcome_def Let_def)

lemma feed_no_eviction:
  "int (length (outcomes b)) + int (length evs) \<le> sample_size b
     \<Longrightarrow> outcomes (feed b evs) = outcomes b @ samples evs"
proof (induction evs arbitrary: b)
  case Nil
  then show ?case by simp
next
  case (Cons e evs)
  obtain ms ok now where e: "e = (ms, ok, now)" by (cases e) auto
  have po: "outcomes (push_outcome b ms ok) = outcomes b @ [(ms, ok)]"
    using Cons.prems by (simp add: push_outcome_no_eviction)
  have o: "outcomes (report b e) = outcomes b @ [(ms, ok)]"
    unfolding e report_fields po ..
  have s: "sample_size (report b e) = sample_size b" unfolding e by (rule report_fields)
  have "outcomes (feed (report b e) evs) = outcomes (report b e) @ samples evs"
    by (rule Cons.IH) (use Cons.prems o s in simp)
  then have "outcomes (feed (report b e) evs) = outcomes b @ (ms, ok) # samples evs"
    unfolding o by simp
  then show ?case unfolding e feed_Cons samples_simps .
qed

lemma report_not_probe: "state b \<noteq> Probe \<Longrightarrow> state (report b e) \<noteq> Probe"
proof -
  assume np: "state b \<noteq> Probe"
  obtain ms ok now where e: "e = (ms, ok, now)" by (cases e) auto
  show ?thesis
  proof (cases "state b")
    case Closed
    show ?thesis unfolding e report_closed[OF Closed] by (simp add: Closed)
  next
    case Open
    show ?thesis unfolding e using report_open[OF Open] by simp
  next
    case Probe
    then show ?thesis using np by simp
  qed
qed

lemma feed_not_probe: "state b \<noteq> Probe \<Longrightarrow> state (feed b evs) \<noteq> Probe"
  by (induction evs arbitrary: b) (simp_all add: report_not_probe del: report.simps)

lemma feed_closed_iff:
  assumes c: "state b = Closed"
    and cap: "int (length (outcomes b)) + int (length evs) \<le> sample_size b"
  shows "state (feed b evs) = Closed \<longleftrightarrow>
           (\<forall>k \<in> {1..length evs}. \<not> trips (b\<lparr>outcomes := outcomes b @ take k (samples evs)\<rparr>))"
  using cap
proof (induction evs rule: rev_induct)
  case Nil
  then show ?case by (simp add: c)
next
  case (snoc e evs)
  obtain ms ok now where e: "e = (ms, ok, now)" by (cases e) auto
  let ?b' = "feed b evs"
  have cap': "int (length (outcomes b)) + int (length evs) \<le> sample_size b"
    using snoc.prems by simp
  have IH: "state ?b' = Closed \<longleftrightarrow>
           (\<forall>k \<in> {1..length evs}. \<not> trips (b\<lparr>outcomes := outcomes b @ take k (samples evs)\<rparr>))"
    by (rule snoc.IH[OF cap'])
  have o: "outcomes ?b' = outcomes b @ samples evs" by (rule feed_no_eviction[OF cap'])
  have room: "int (length (outcomes ?b')) + 1 \<le> sample_size ?b'"
    using snoc.prems by (simp add: o)
  have w: "outcomes (push_outcome ?b' ms ok) = outcomes b @ samples (evs @ [e])"
    using push_outcome_no_eviction[OF room] by (simp add: o e)
  have t: "trips (push_outcome ?b' ms ok)
             \<longleftrightarrow> trips (b\<lparr>outcomes := outcomes b @ take (Suc (length evs)) (samples (evs @ [e]))\<rparr>)"
    by (simp add: trips_def w)
  have pre: "take k (samples (evs @ [e])) = take k (samples evs)" if "k \<le> length evs" for k
    using that by simp
  have split: "{1..length (evs @ [e])} = insert (Suc (length evs)) {1..length evs}"
    by auto
  have last: "state (feed b (evs @ [e])) = Closed
                \<longleftrightarrow> state ?b' = Closed \<and> \<not> trips (push_outcome ?b' ms ok)"
  proof (cases "state ?b' = Closed")
    case True
    show ?thesis unfolding feed_snoc e report_closed[OF True] by (simp add: True)
  next
    case False
    have "state ?b' \<noteq> Probe" by (rule feed_not_probe) (simp add: c)
    with False have op: "state ?b' = Open" by (cases "state ?b'") simp_all
    show ?thesis unfolding feed_snoc e using report_open[OF op, of ms ok now] op by simp
  qed
  show ?case unfolding last IH t split using pre by auto
qed

subsection \<open>The trip threshold on ten samples\<close>

lemma p95_ms_below:
  assumes ne: "os \<noteq> []" and lt: "\<forall>s \<in> set os. fst s < m"
  shows "p95_ms os < m"
proof -
  have "p95 (map fst os) \<in> set (map fst os)" by (rule p95_in_set) (simp add: ne)
  then show ?thesis using lt by (auto simp: p95_ms_def)
qed

lemma set_samples: "set (samples evs) = (\<lambda>e. (fst e, fst (snd e))) ` set evs"
proof -
  have "samples evs = map (\<lambda>e. (fst e, fst (snd e))) evs"
    by (simp add: samples_def case_prod_beta)
  then show ?thesis by simp
qed

lemma new_breaker_prefix_trips:
  assumes k: "1 \<le> k" and ne: "evs \<noteq> []" and lt: "\<forall>e \<in> set evs. fst e < real_of_int p"
  shows "trips ((CircuitBreaker n rate cd p nm)\<lparr>outcomes := take k (samples evs)\<rparr>)
           \<longleftrightarrow> fail_rate (take k (samples evs)) \<ge> rate"
proof -
  have nonempty: "take k (samples evs) \<noteq> []" using k ne by (cases evs) (auto simp: samples_def)
  have "\<forall>s \<in> set (take k (samples evs)). fst s < real_of_int p"
    using lt by (auto dest!: in_set_takeD simp: set_samples)
  then have "p95_ms (take k (samples evs)) < real_of_int p"
    by (rule p95_ms_below[OF nonempty])
  then show ?thesis by (simp add: trips_def CircuitBreaker_def)
qed

lemma new_breaker_run:
  assumes len: "int (length evs) \<le> n" and lt: "\<forall>e \<in> set evs. fst e < real_of_int p"
  shows "state (feed (CircuitBreaker n rate cd p nm) evs) = Closed
           \<longleftrightarrow> (\<forall>k \<in> {1..length evs}. fail_rate (take k (samples evs)) < rate)"
proof (cases "evs = []")
  case True
  then show ?thesis by (simp add: CircuitBreaker_def)
next
  case False
  let ?b = "CircuitBreaker n rate cd p nm"
  have c: "state ?b = Closed" by (simp add: CircuitBreaker_def)
  have o: "outcomes ?b = []" by (simp add: CircuitBreaker_def)
  have cap: "int (length (outcomes ?b)) + int (length evs) \<le> sample_size ?b"
    using len by (simp add: CircuitBreaker_def)
  have "state (feed ?b evs) = Closed \<longleftrightarrow>
          (\<forall>k \<in> {1..length evs}. \<not> trips (?b\<lparr>outcomes := take k (samples evs)\<rparr>))"
    using feed_closed_iff[OF c cap] unfolding o by simp
  also have "\<dots> \<longleftrightarrow> (\<forall>k \<in> {1..length evs}. \<not> fail_rate (take k (samples evs)) \<ge> rate)"
    using new_breaker_prefix_trips[OF _ False lt] by simp
  finally show ?thesis by (simp add: not_le)
qed

lemma new_breaker_run_open:
  "state (feed (CircuitBreaker n rate cd p nm) evs) \<noteq> Closed
     \<Longrightarrow> state (feed (CircuitBreaker n rate cd p nm) evs) = Open"
proof -
  assume nc: "state (feed (CircuitBreaker n rate cd p nm) evs) \<noteq> Closed"
  have "state (feed (CircuitBreaker n rate cd p nm) evs) \<noteq> Probe"
    by (rule feed_not_probe) (simp add: CircuitBreaker_def)
  with nc show ?thesis
    by (cases "state (feed (CircuitBreaker n rate cd p nm) evs)") simp_all
qed

text \<open>
  C6 (as the code has it). A new breaker with \<open>max_fail_rate = 0.4\<close> and capacity 10 is
  fed ten samples whose durations stay below the p95 threshold. The breaker is evaluated
  after every sample, so it ends closed exactly when no non-empty prefix of the run has a
  failure rate of 0.4 or more, and open otherwise. With 4 failures and 6 successes, in
  any order, it ends open. A run whose first sample is a failure ends open as well, also
  with 3 failures and 7 successes: the first window has failure rate 1.
\<close>

theorem c6_trip_threshold:
  assumes len: "length evs = 10" and lt: "\<forall>e \<in> set evs. fst e < real_of_int p"
  shows "(state (feed (CircuitBreaker 10 0.4 cd p nm) evs) = Closed
            \<longleftrightarrow> (\<forall>k \<in> {1..10}. fail_rate (take k (samples evs)) < 0.4))
       \<and> (state (feed (CircuitBreaker 10 0.4 cd p nm) evs) \<noteq> Closed
            \<longrightarrow> state (feed (CircuitBreaker 10 0.4 cd p nm) evs) = Open)
       \<and> (fails (samples evs) = 4 \<longrightarrow> state (feed (CircuitBreaker 10 0.4 cd p nm) evs) = Open)
       \<and> (\<not> fst (snd (hd evs)) \<longrightarrow> state (feed (CircuitBreaker 10 0.4 cd p nm) evs) = Open)"
proof -
  let ?st = "state (feed (CircuitBreaker 10 0.4 cd p nm) evs)"
  have iff: "?st = Closed \<longleftrightarrow> (\<forall>k \<in> {1..10}. fail_rate (take k (samples evs)) < 0.4)"
    using new_breaker_run[of evs 10 p "0.4" cd nm] len lt by simp
  have op: "?st \<noteq> Closed \<longrightarrow> ?st = Open"
    using new_breaker_run_open by blast
  have four: "?st = Open" if f: "fails (samples evs) = 4"
  proof -
    have "take 10 (samples evs) = samples evs" using len by simp
    moreover have "fail_rate (samples evs) = 4 / 10"
    proof -
      have l: "length (samples evs) = 10" using len by simp
      have ne: "samples evs \<noteq> []" using len by (cases evs) (auto simp: samples_def)
      show ?thesis unfolding fail_rate_def if_P[OF ne] f l by simp
    qed
    ultimately have "\<not> fail_rate (take 10 (samples evs)) < 0.4" by simp
    then have "?st \<noteq> Closed" using iff by auto
    then show ?thesis using op by blast
  qed
  have first: "?st = Open" if f: "\<not> fst (snd (hd evs))"
  proof -
    obtain e es where evs: "evs = e # es" using len by (cases evs) auto
    obtain ms ok now where e: "e = (ms, ok, now)" by (cases e) auto
    have "take 1 (samples evs) = [(ms, False)]" using f by (simp add: evs e)
    then have "fail_rate (take 1 (samples evs)) = 1" by (simp add: fail_rate_def fails_def)
    then have "\<not> fail_rate (take 1 (samples evs)) < 0.4" by simp
    then have "?st \<noteq> Closed" using iff by auto
    then show ?thesis using op by blast
  qed
  show ?thesis using iff op four first by blast
qed

theorem c6_trip_threshold_witness:
  "state (feed (CircuitBreaker 10 0.4 15000 1200 ''b'')
       [(100, True, 1), (900, False, 2), (100, True, 3), (100, True, 4), (900, False, 5),
        (100, True, 6), (900, False, 7), (100, True, 8), (100, True, 9), (900, False, 10)]) = Open
   \<and> state (feed (CircuitBreaker 10 0.4 15000 1200 ''b'')
       [(100, True, 1), (100, True, 2), (100, True, 3), (900, False, 4), (100, True, 5),
        (100, True, 6), (900, False, 7), (100, True, 8), (100, True, 9), (900, False, 10)]) = Closed"
proof -
  define e4 :: "(real \<times> bool \<times> real) list" where "e4 =
       [(100, True, 1), (900, False, 2), (100, True, 3), (100, True, 4), (900, False, 5),
        (100, True, 6), (900, False, 7), (100, True, 8), (100, True, 9), (900, False, 10)]"
  define e3 :: "(real \<times> bool \<times> real) list" where "e3 =
       [(100, True, 1), (100, True, 2), (100, True, 3), (900, False, 4), (100, True, 5),
        (100, True, 6), (900, False, 7), (100, True, 8), (100, True, 9), (900, False, 10)]"
  have l4: "length e4 = 10" and l3: "length e3 = 10" by (simp_all add: e4_def e3_def)
  have d4: "\<forall>e \<in> set e4. fst e < real_of_int 1200" by (simp add: e4_def)
  have d3: "\<forall>e \<in> set e3. fst e < real_of_int 1200" by (simp add: e3_def)
  have f4: "fails (samples e4) = 4" by (simp add: e4_def fails_def)
  have a: "state (feed (CircuitBreaker 10 0.4 15000 1200 ''b'') e4) = Open"
    using c6_trip_threshold[OF l4 d4, of 15000 "''b''"] f4 by blast
  have ks: "{1..10::nat} = {1, 2, 3, 4, 5, 6, 7, 8, 9, 10}"
  proof (rule set_eqI)
    fix x :: nat
    show "x \<in> {1..10} \<longleftrightarrow> x \<in> {1, 2, 3, 4, 5, 6, 7, 8, 9, 10}"
      unfolding atLeastAtMost_iff insert_iff empty_iff by presburger
  qed
  have p3: "\<forall>k \<in> {1..10}. fail_rate (take k (samples e3)) < 0.4"
    unfolding ks by (simp add: e3_def fail_rate_def fails_def)
  have b: "state (feed (CircuitBreaker 10 0.4 15000 1200 ''b'') e3) = Closed"
    using c6_trip_threshold[OF l3 d3, of 15000 "''b''"] p3 by blast
  show ?thesis using a b unfolding e4_def e3_def by blast
qed

text \<open>
  C6 as stated fails for an order of 3 failures and 7 successes that begins with a
  failure: the first window is one failure, rate 1, and the breaker opens at the first
  sample and stays open.
\<close>

theorem c6_three_failures_counterexample:
  "fails (samples [(900, False, 1), (100, True, 2), (100, True, 3), (100, True, 4),
        (100, True, 5), (100, True, 6), (100, True, 7), (100, True, 8), (900, False, 9),
        (900, False, 10)]) = 3
   \<and> length [(900::real, False, 1::real), (100, True, 2), (100, True, 3), (100, True, 4),
        (100, True, 5), (100, True, 6), (100, True, 7), (100, True, 8), (900, False, 9),
        (900, False, 10)] = 10
   \<and> state (feed (CircuitBreaker 10 0.4 15000 1200 ''b'')
       [(900, False, 1), (100, True, 2), (100, True, 3), (100, True, 4), (100, True, 5),
        (100, True, 6), (100, True, 7), (100, True, 8), (900, False, 9), (900, False, 10)]) = Open
   \<and> state (feed (CircuitBreaker 10 0.4 15000 1200 ''b'')
       [(900, False, 1), (100, True, 2), (100, True, 3), (100, True, 4), (100, True, 5),
        (100, True, 6), (100, True, 7), (100, True, 8), (900, False, 9), (900, False, 10)]) \<noteq> Closed"
proof -
  have "state (report (CircuitBreaker 10 0.4 15000 1200 ''b'') (900, False, 1)) = Open"
    by (simp add: CircuitBreaker_def failure_def push_outcome_def evaluate_def trips_def
        fail_rate_def fails_def Let_def)
  then have "state (feed (report (CircuitBreaker 10 0.4 15000 1200 ''b'') (900, False, 1))
       [(100, True, 2), (100, True, 3), (100, True, 4), (100, True, 5),
        (100, True, 6), (100, True, 7), (100, True, 8), (900, False, 9), (900, False, 10)]) = Open"
    by (rule feed_open)
  then show ?thesis unfolding feed_Cons[symmetric] by (simp add: fails_def del: feed_Cons report.simps)
qed

subsection \<open>The timeout helper\<close>

text \<open>
  C8 (as the code has it). \<open>with_timeout\<close> returns the wrapped call's value when the
  call returns. When the deadline fires first it raises \<open>TimeoutError\<close> with the message
  \<open>timeout_<label>\<close>, and so it does when the call itself raises a \<open>TimeoutError\<close>. Any
  other exception of the wrapped call leaves \<open>with_timeout\<close> unchanged, with its own
  message. So \<open>with_timeout\<close> returns normally exactly when the wrapped call returned;
  every failure reaches the caller as an exception.
\<close>

theorem c8_with_timeout:
  "with_timeout (Returned v) ms label = Inr v
   \<and> with_timeout DeadlineFirst ms label = Inl (TimeoutError (''timeout_'' @ label))
   \<and> with_timeout (Raised (TimeoutError m)) ms label = Inl (TimeoutError (''timeout_'' @ label))
   \<and> with_timeout (Raised (Exception m)) ms label = Inl (Exception m)
   \<and> with_timeout (Raised (BaseException m)) ms label = Inl (BaseException m)
   \<and> ((\<exists>x. with_timeout aw ms label = Inr x) \<longleftrightarrow> (\<exists>x. aw = Returned x))"
proof -
  have "(\<exists>x. with_timeout aw ms label = Inr x) \<longleftrightarrow> (\<exists>x. aw = Returned x)"
  proof (cases aw)
    case (Returned x)
    then show ?thesis by simp
  next
    case (Raised e)
    then show ?thesis by (cases e) simp_all
  next
    case DeadlineFirst
    then show ?thesis by simp
  qed
  then show ?thesis by simp
qed

theorem c8_with_timeout_witness:
  "with_timeout (Returned (199::int)) 900 ''supplier_us-east'' = Inr 199
   \<and> with_timeout (Raised (Exception ''429_throttle'') :: int awaited) 900 ''supplier_us-east''
       = Inl (Exception ''429_throttle'')"
  using c8_with_timeout[of "199::int" 900 "''supplier_us-east''" "''429_throttle''"
      "Returned 199"]
  by simp

text \<open>
  C8 as stated fails: when the deadline fires first, and when the wrapped call raises,
  an exception leaves \<open>with_timeout\<close>; nothing is returned as a value.
\<close>

theorem c8_raises_counterexample:
  "with_timeout (DeadlineFirst :: int awaited) 900 ''supplier_us-east''
     = Inl (TimeoutError ''timeout_supplier_us-east'')
   \<and> with_timeout (Raised (Exception ''502_bad_gateway'') :: int awaited) 900 ''supplier_us-east''
     = Inl (Exception ''502_bad_gateway'')
   \<and> isl (with_timeout (DeadlineFirst :: int awaited) 900 ''supplier_us-east'')"
  by simp

subsection \<open>The allergen chain\<close>

lemma llm_items_llm_complete:
  "llm_items (llm_complete prompt n t) = [''gluten'', ''dairy'', ''nuts'', ''soy'']"
  by (simp add: llm_items_def llm_complete_def split_on_def strip_def is_space_def lower_def
      lower_char_def)

lemma fallback_items_eq:
  "fallback_items rc
     = sort (remdups (local_tags rc @ [''gluten'', ''dairy'', ''nuts'', ''soy'']))"
  unfolding fallback_items_def Let_def llm_items_llm_complete ..

lemma fallback_items_union:
  "set (fallback_items rc)
     = lower ` set (allergen_tags rc) \<union> {''gluten'', ''dairy'', ''nuts'', ''soy''}"
  "sorted (fallback_items rc)"
  "distinct (fallback_items rc)"
  unfolding fallback_items_eq by (auto simp: local_tags_def)

lemma with_timeout_fails:
  "(\<forall>x. aw \<noteq> Returned x) \<Longrightarrow> \<exists>e. with_timeout aw ms label = Inl e"
proof (cases aw)
  case (Returned x)
  assume "\<forall>x. aw \<noteq> Returned x"
  with Returned show ?thesis by simp
next
  case (Raised e)
  then show ?thesis by (cases e) simp_all
next
  case DeadlineFirst
  then show ?thesis by simp
qed

lemma not_returned_fails:
  "\<not> returned aw \<Longrightarrow> \<exists>e. with_timeout aw ms label = Inl e"
  by (rule with_timeout_fails) (cases aw, simp_all)

text \<open>
  C9. In the allergen chain, when the third-party call is skipped because the breaker is
  open and may not probe, or is made and does not return (it raises or the deadline fires
  first), \<open>allergens_for\<close> still returns; both fallbacks run (the call to \<open>llm_complete\<close>
  is the last of the trace, and both fallback tags follow the one tag of the primary
  step); the result is degraded; and its items are the sorted list without duplicates of
  the union of the local tags and the estimator's items, both in lower case.
\<close>

theorem c9_allergen_union_fallback:
  assumes primary: "(state brk = Open \<and> \<not> can_probe brk (t_gate e)) \<or> \<not> returned (fetched e)"
  shows "(\<exists>tag brk' tr.
            allergens_for e brk rc
              = Inr (\<lparr>items = fallback_items rc, a_is_degraded = True,
                       a_reasons = [tag, ''allergen_fallback_local_tags'',
                                    ''allergen_fallback_llm'']\<rparr>,
                     brk', tr @ [Llm_Complete]))
       \<and> set (fallback_items rc)
            = set (local_tags rc) \<union> set (llm_items (llm_complete prompt 80 0))
       \<and> set (local_tags rc) = lower ` set (allergen_tags rc)
       \<and> llm_items (llm_complete prompt 80 0) = [''gluten'', ''dairy'', ''nuts'', ''soy'']
       \<and> sorted (fallback_items rc) \<and> distinct (fallback_items rc)"
proof -
  have run: "\<exists>tag brk' tr.
            allergens_for e brk rc
              = Inr (\<lparr>items = fallback_items rc, a_is_degraded = True,
                       a_reasons = [tag, ''allergen_fallback_local_tags'',
                                    ''allergen_fallback_llm'']\<rparr>,
                     brk', tr @ [Llm_Complete])"
  proof (cases "state brk = Open \<and> \<not> can_probe brk (t_gate e)")
    case True
    then show ?thesis by (simp add: allergens_for_def)
  next
    case False
    with primary have "\<not> returned (fetched e)" by blast
    then obtain x where x: "with_timeout (fetched e) 800 ''allergen'' = Inl x"
      using not_returned_fails by blast
    show ?thesis using False by (simp add: allergens_for_def x Let_def)
  qed
  have u: "set (fallback_items rc)
            = set (local_tags rc) \<union> set (llm_items (llm_complete prompt 80 0))"
    unfolding llm_items_llm_complete fallback_items_union(1)
    by (simp add: local_tags_def)
  have l: "set (local_tags rc) = lower ` set (allergen_tags rc)"
    by (simp add: local_tags_def)
  show ?thesis
    using run u l llm_items_llm_complete fallback_items_union(2,3) by blast
qed

theorem c9_allergen_union_fallback_witness:
  "map_sum id (\<lambda>(res, b, tr). (items res, a_is_degraded res, a_reasons res, tr))
     (allergens_for
        \<lparr>fetched = DeadlineFirst, t_gate = 0, t_check = 0, t_enter = 0, t_start = 0,
         t_end = 800, t_report = 800, t_wall = 0\<rparr>
        AllergenClient
        \<lparr>recipe_id = ''RCP_BOLOGNESE'', recipe_name = ''Bolognese'',
         ingredients = [''pasta'', ''tomato'', ''ground beef'', ''parmesan cheese'', ''butter''],
         allergen_tags = [''Dairy'', ''sesame'']\<rparr>)
   = Inr ([''dairy'', ''gluten'', ''nuts'', ''sesame'', ''soy''], True,
          [''allergen_timeout'', ''allergen_fallback_local_tags'', ''allergen_fallback_llm''],
          [Fetch_Allergens, Llm_Complete])"
proof -
  define e :: "string list call_env" where "e = \<lparr>fetched = DeadlineFirst, t_gate = 0, t_check = 0, t_enter = 0, t_start = 0,
         t_end = 800, t_report = 800, t_wall = 0\<rparr>"
  define rc where "rc = \<lparr>recipe_id = ''RCP_BOLOGNESE'', recipe_name = ''Bolognese'',
         ingredients = [''pasta'', ''tomato'', ''ground beef'', ''parmesan cheese'', ''butter''],
         allergen_tags = [''Dairy'', ''sesame'']\<rparr>"
  have h: "(state AllergenClient = Open \<and> \<not> can_probe AllergenClient (t_gate e))
             \<or> \<not> returned (fetched e)"
    by (simp add: e_def)
  from c9_allergen_union_fallback[OF h, of rc]
  obtain tag brk' tr where run: "allergens_for e AllergenClient rc
              = Inr (\<lparr>items = fallback_items rc, a_is_degraded = True,
                       a_reasons = [tag, ''allergen_fallback_local_tags'',
                                    ''allergen_fallback_llm'']\<rparr>,
                     brk', tr @ [Llm_Complete])"
    by blast
  have fi: "fallback_items rc = [''dairy'', ''gluten'', ''nuts'', ''sesame'', ''soy'']"
    unfolding fallback_items_eq
    by (simp add: rc_def local_tags_def lower_def lower_char_def)
  have st: "state AllergenClient = Closed" by (simp add: AllergenClient_def CircuitBreaker_def)
  have direct: "\<exists>b. allergens_for e AllergenClient rc
     = Inr (\<lparr>items = fallback_items rc, a_is_degraded = True,
              a_reasons = [''allergen_timeout'', ''allergen_fallback_local_tags'',
                           ''allergen_fallback_llm'']\<rparr>, b, [Fetch_Allergens, Llm_Complete])"
    by (simp add: allergens_for_def st e_def to_error_def lower_def lower_char_def Let_def)
  with run have "tag = ''allergen_timeout''" "tr = [Fetch_Allergens]" by auto
  with run fi show ?thesis unfolding e_def[symmetric] rc_def[symmetric] by simp
qed

subsection \<open>One guarded region call\<close>

lemma try_region_returned [simp]: "returned (try_region aw s f) = returned aw"
  by (cases aw) simp_all

lemma attempt_total: "\<exists>p rs' w'. attempt ev sku r rs w = Inr (p, rs', w')"
  by (simp add: attempt_def Let_def split: sum.split prod.split)

lemma attempt_skipped:
  "step_skipped ev w r \<Longrightarrow> attempt ev sku r rs w = Inr (None, rs @ [''supplier_open''], w)"
  by (simp add: attempt_def step_skipped_def Let_def)

lemma attempt_failed:
  assumes ns: "\<not> step_skipped ev w r" and nr: "\<not> returned (fetched (region_env ev r))"
  shows "\<exists>w'. attempt ev sku r rs w = Inr (None, rs @ [''supplier_error_'' @ region_str r], w')
            \<and> price_cache w' = price_cache w
            \<and> calls w' = calls w @ [(sku, r)]
            \<and> (\<forall>r'. r' \<noteq> r \<longrightarrow> breakers w' r' = breakers w r')"
proof -
  let ?e = "region_env ev r"
  have "\<not> returned (try_region (fetched ?e) (t_start ?e) (t_end ?e))" using nr by simp
  then obtain x where
    x: "with_timeout (try_region (fetched ?e) (t_start ?e) (t_end ?e)) 900
          (''supplier_'' @ region_str r) = Inl x"
    using not_returned_fails by blast
  have gate: "\<not> (state (breakers w r) = Open \<and> \<not> can_probe (breakers w r) (t_gate ?e))"
    using ns by (simp add: step_skipped_def)
  show ?thesis
    unfolding attempt_def Let_def if_not_P[OF gate] x by simp
qed

lemma attempt_step_fails:
  assumes f: "step_fails ev w r"
  shows "\<exists>w'. attempt ev sku r rs w = Inr (None, rs @ [step_tag ev w r], w')
            \<and> price_cache w' = price_cache w
            \<and> (if step_skipped ev w r then calls w' = calls w
                else calls w' = calls w @ [(sku, r)])
            \<and> (\<forall>r'. r' \<noteq> r \<longrightarrow> breakers w' r' = breakers w r')"
proof (cases "step_skipped ev w r")
  case True
  then show ?thesis using attempt_skipped[OF True] by (simp add: step_tag_def)
next
  case False
  then have "\<not> returned (fetched (region_env ev r))" using f by (simp add: step_fails_def)
  from attempt_failed[OF False this, of sku rs] show ?thesis
    using False by (simp add: step_tag_def)
qed

lemma step_skipped_cong:
  "breakers w' r = breakers w r \<Longrightarrow> step_skipped ev w' r = step_skipped ev w r"
  by (simp add: step_skipped_def)

lemma mirror_of_neq: "mirror_of r \<noteq> r"
  by (cases r) (simp_all add: mirror_of_def)

lemma get_price_unfold:
  "get_price ev w sku preferred =
     (case attempt ev sku preferred [] w of
        Inl x \<Rightarrow> Inl x
      | Inr (p1, rs1, w1) \<Rightarrow>
          (case p1 of
             Some res \<Rightarrow> Inr (res, w1)
           | None \<Rightarrow>
               (case attempt ev sku (mirror_of preferred) rs1 w1 of
                  Inl x \<Rightarrow> Inl x
                | Inr (p2, rs2, w2) \<Rightarrow>
                    (case p2 of
                       Some res \<Rightarrow>
                         Inr (res\<lparr>reasons := reasons res @ [''used_mirror''],
                                  is_degraded := True\<rparr>, w2)
                     | None \<Rightarrow>
                         (case price_cache w2 sku of
                            Some (c, ts) \<Rightarrow>
                              Inr (\<lparr>cents = c, is_degraded = True,
                                    reasons = rs2 @ [''used_cache''],
                                    freshness = Some (freshness_label ts (wall_now ev))\<rparr>, w2)
                          | None \<Rightarrow>
                              Inr (\<lparr>cents = baseline_estimate_cents sku, is_degraded = True,
                                    reasons = rs2 @ [''used_baseline''],
                                    freshness = None\<rparr>, w2))))))"
  unfolding get_price_def Let_def mirror_of_def by (rule refl)

lemma get_price_total: "\<exists>res w'. get_price ev w sku preferred = Inr (res, w')"
proof -
  obtain p1 rs1 w1 where a1: "attempt ev sku preferred [] w = Inr (p1, rs1, w1)"
    using attempt_total by blast
  obtain p2 rs2 w2 where a2: "attempt ev sku (mirror_of preferred) rs1 w1 = Inr (p2, rs2, w2)"
    using attempt_total by blast
  show ?thesis
    by (simp add: get_price_unfold a1 a2 split: option.split prod.split)
qed

lemma get_price_both_fail:
  assumes f1: "step_fails ev w preferred" and f2: "step_fails ev w (mirror_of preferred)"
  shows "\<exists>w2. get_price ev w sku preferred =
           (case price_cache w sku of
              Some (c, ts) \<Rightarrow>
                Inr (\<lparr>cents = c, is_degraded = True,
                      reasons = [step_tag ev w preferred, step_tag ev w (mirror_of preferred),
                                 ''used_cache''],
                      freshness = Some (freshness_label ts (wall_now ev))\<rparr>, w2)
            | None \<Rightarrow>
                Inr (\<lparr>cents = baseline_estimate_cents sku, is_degraded = True,
                      reasons = [step_tag ev w preferred, step_tag ev w (mirror_of preferred),
                                 ''used_baseline''],
                      freshness = None\<rparr>, w2))
         \<and> calls w2 = calls w
              @ (if step_skipped ev w preferred then [] else [(sku, preferred)])
              @ (if step_skipped ev w (mirror_of preferred) then []
                 else [(sku, mirror_of preferred)])"
proof -
  let ?m = "mirror_of preferred"
  obtain w1 where a1: "attempt ev sku preferred [] w = Inr (None, [step_tag ev w preferred], w1)"
    and c1: "price_cache w1 = price_cache w"
    and k1: "if step_skipped ev w preferred then calls w1 = calls w
                else calls w1 = calls w @ [(sku, preferred)]"
    and b1: "\<forall>r'. r' \<noteq> preferred \<longrightarrow> breakers w1 r' = breakers w r'"
    using attempt_step_fails[OF f1, of sku "[]"] unfolding append_Nil by blast
  have bm: "breakers w1 ?m = breakers w ?m" using b1 mirror_of_neq by blast
  have sk: "step_skipped ev w1 ?m = step_skipped ev w ?m" by (rule step_skipped_cong[OF bm])
  have f2': "step_fails ev w1 ?m" using f2 by (simp add: step_fails_def sk)
  have tg: "step_tag ev w1 ?m = step_tag ev w ?m" by (simp add: step_tag_def sk)
  obtain w2 where a2: "attempt ev sku ?m [step_tag ev w preferred] w1
        = Inr (None, [step_tag ev w preferred, step_tag ev w1 ?m], w2)"
    and c2: "price_cache w2 = price_cache w1"
    and k2: "if step_skipped ev w1 ?m then calls w2 = calls w1
                else calls w2 = calls w1 @ [(sku, ?m)]"
    using attempt_step_fails[OF f2', of sku "[step_tag ev w preferred]"]
    unfolding append_Cons append_Nil by blast
  have "get_price ev w sku preferred =
           (case price_cache w sku of
              Some (c, ts) \<Rightarrow>
                Inr (\<lparr>cents = c, is_degraded = True,
                      reasons = [step_tag ev w preferred, step_tag ev w ?m, ''used_cache''],
                      freshness = Some (freshness_label ts (wall_now ev))\<rparr>, w2)
            | None \<Rightarrow>
                Inr (\<lparr>cents = baseline_estimate_cents sku, is_degraded = True,
                      reasons = [step_tag ev w preferred, step_tag ev w ?m, ''used_baseline''],
                      freshness = None\<rparr>, w2))"
    by (simp add: get_price_unfold a1 a2 c1 c2 tg split: option.split)
  moreover have "calls w2 = calls w
              @ (if step_skipped ev w preferred then [] else [(sku, preferred)])
              @ (if step_skipped ev w ?m then [] else [(sku, ?m)])"
    using k1 k2 by (simp add: sk split: if_splits)
  ultimately show ?thesis by blast
qed

subsection \<open>The supplier chain\<close>

lemma str_nat_30: "str_nat 30 = ''30''"
  by (simp add: str_nat.simps[of 30] str_nat.simps[of 3] digit_char_def)

lemma freshness_label_30m:
  assumes lo: "30 * 60000 \<le> wall - ts" and hi: "wall - ts < 31 * 60000"
  shows "freshness_label ts wall = ''30m old''"
proof -
  define a where "a = wall - ts"
  have a: "1800000 \<le> a" "a < 1860000" using lo hi by (simp_all add: a_def)
  have h: "\<lfloor>a / 3600000\<rfloor> = 0" using a by (simp add: floor_eq_iff)
  have m: "\<lfloor>a / 60000\<rfloor> = 30" using a by (simp add: floor_eq_iff)
  have hours: "py_int (py_floordiv a (1000 * 60 * 60)) = 0"
    using h by (simp add: py_floordiv_def py_int_def)
  have md: "py_mod a (1000 * 60 * 60) = a"
    using h by (simp add: py_mod_def)
  have mins: "py_int (py_floordiv (py_mod a (1000 * 60 * 60)) (1000 * 60)) = 30"
    unfolding md using m by (simp add: py_floordiv_def py_int_def)
  show ?thesis
    unfolding freshness_label_def Let_def a_def[symmetric] hours mins
    by (simp add: str_int_def str_nat_30)
qed

lemma failing_env_fields:
  "fetched (region_env failing_env r) = Raised (Exception ''502_bad_gateway'')"
  "t_gate (region_env failing_env r) = 20000"
  "wall_now failing_env = 1600000000000"
  by (simp_all add: failing_env_def)

lemma west_open_world_fields:
  "state (breakers west_open_world US_West) = Open"
  "last_opened_at_ms (breakers west_open_world US_West) = 10000"
  "cooldown_ms (breakers west_open_world US_West) = 15000"
  "state (breakers west_open_world US_East) = Closed"
  "price_cache west_open_world ''X'' = Some (199, 1600000000000 - 30 * 60 * 1000)"
  "calls west_open_world = []"
  by (simp_all add: west_open_world_def CircuitBreaker_def failure_def push_outcome_def
      evaluate_def trips_def fail_rate_def fails_def Let_def)

lemma scenario_steps:
  "step_skipped failing_env west_open_world US_West"
  "\<not> step_skipped failing_env west_open_world US_East"
  "step_fails failing_env west_open_world US_West"
  "step_fails failing_env west_open_world US_East"
  by (simp_all add: step_skipped_def step_fails_def can_probe_def failing_env_fields
      west_open_world_fields)

text \<open>
  C1 (as the code has it). For every SKU, preferred region, world and environment,
  \<open>get_price\<close> returns a price result; no exception leaves it. When both region steps
  fail or are skipped and the cache has no entry for the SKU, the result is the baseline
  estimate, degraded, without freshness, and its reasons are, in order, the tag of the
  primary step, the tag of the mirror step (\<open>supplier_open\<close> for a skip,
  \<open>supplier_error_<region>\<close> for a call that did not return) and \<open>used_baseline\<close>. The
  cache miss adds no tag.
\<close>

theorem c1_get_price_total:
  "(\<exists>res w'. get_price ev w sku preferred = Inr (res, w'))
   \<and> (step_fails ev w preferred \<and> step_fails ev w (mirror_of preferred)
        \<and> price_cache w sku = None \<longrightarrow>
       (\<exists>w'. get_price ev w sku preferred
                = Inr (\<lparr>cents = baseline_estimate_cents sku, is_degraded = True,
                         reasons = [step_tag ev w preferred,
                                    step_tag ev w (mirror_of preferred), ''used_baseline''],
                         freshness = None\<rparr>, w')))"
proof (intro conjI impI)
  show "\<exists>res w'. get_price ev w sku preferred = Inr (res, w')"
    by (rule get_price_total)
next
  assume h: "step_fails ev w preferred \<and> step_fails ev w (mirror_of preferred)
               \<and> price_cache w sku = None"
  then have f1: "step_fails ev w preferred" and f2: "step_fails ev w (mirror_of preferred)"
    and miss: "price_cache w sku = None" by simp_all
  from get_price_both_fail[OF f1 f2, of sku]
  show "\<exists>w'. get_price ev w sku preferred
                = Inr (\<lparr>cents = baseline_estimate_cents sku, is_degraded = True,
                         reasons = [step_tag ev w preferred,
                                    step_tag ev w (mirror_of preferred), ''used_baseline''],
                         freshness = None\<rparr>, w')"
    unfolding miss by auto
qed

lemma all_fail_fresh_steps:
  "step_fails failing_env (SupplierClient Map.empty) r"
  "\<not> step_skipped failing_env (SupplierClient Map.empty) r"
  by (simp_all add: step_fails_def step_skipped_def SupplierClient_def CircuitBreaker_def
      failing_env_fields)

theorem c1_get_price_total_witness:
  "map_sum id fst (get_price failing_env (SupplierClient Map.empty) ''SKU_FISH'' US_West)
     = Inr \<lparr>cents = 349, is_degraded = True,
            reasons = [''supplier_error_us-west'', ''supplier_error_us-east'', ''used_baseline''],
            freshness = None\<rparr>"
proof -
  have h: "step_fails failing_env (SupplierClient Map.empty) US_West
           \<and> step_fails failing_env (SupplierClient Map.empty) (mirror_of US_West)
           \<and> price_cache (SupplierClient Map.empty) ''SKU_FISH'' = None"
    by (simp add: all_fail_fresh_steps) (simp add: SupplierClient_def)
  from c1_get_price_total[of failing_env "SupplierClient Map.empty" "''SKU_FISH''" US_West] h
  obtain w' where "get_price failing_env (SupplierClient Map.empty) ''SKU_FISH'' US_West
     = Inr (\<lparr>cents = baseline_estimate_cents ''SKU_FISH'', is_degraded = True,
             reasons = [step_tag failing_env (SupplierClient Map.empty) US_West,
                        step_tag failing_env (SupplierClient Map.empty) (mirror_of US_West),
                        ''used_baseline''],
             freshness = None\<rparr>, w')"
    by blast
  then show ?thesis
    by (simp add: step_tag_def all_fail_fresh_steps mirror_of_def baseline_estimate_cents_def)
qed

text \<open>
  C1 as stated fails where it counts the tags. With a new client, an empty cache and both
  region calls failing, three non-terminal steps fail (primary, mirror, cache), yet the
  reasons hold three tags in all, the terminal one included: the cache miss has none.
\<close>

theorem c1_cache_miss_untagged_counterexample:
  "map_sum id (reasons \<circ> fst)
       (get_price failing_env (SupplierClient Map.empty) ''SKU_STEAK'' US_East)
     = Inr [''supplier_error_us-east'', ''supplier_error_us-west'', ''used_baseline'']
   \<and> failed_or_skipped_steps failing_env (SupplierClient Map.empty) ''SKU_STEAK'' US_East = 3
   \<and> map_sum id (length \<circ> reasons \<circ> fst)
       (get_price failing_env (SupplierClient Map.empty) ''SKU_STEAK'' US_East)
     \<noteq> Inr (failed_or_skipped_steps failing_env (SupplierClient Map.empty) ''SKU_STEAK''
               US_East + 1)"
proof -
  have miss: "price_cache (SupplierClient Map.empty) ''SKU_STEAK'' = None"
    by (simp add: SupplierClient_def)
  from get_price_both_fail[where preferred = US_East and sku = "''SKU_STEAK''",
      OF all_fail_fresh_steps(1) all_fail_fresh_steps(1)]
  obtain w2 where g: "get_price failing_env (SupplierClient Map.empty) ''SKU_STEAK'' US_East
     = Inr (\<lparr>cents = baseline_estimate_cents ''SKU_STEAK'', is_degraded = True,
             reasons = [step_tag failing_env (SupplierClient Map.empty) US_East,
                        step_tag failing_env (SupplierClient Map.empty) (mirror_of US_East),
                        ''used_baseline''],
             freshness = None\<rparr>, w2)"
    unfolding miss by auto
  have n: "failed_or_skipped_steps failing_env (SupplierClient Map.empty) ''SKU_STEAK'' US_East = 3"
    by (simp add: failed_or_skipped_steps_def all_fail_fresh_steps miss)
  show ?thesis unfolding n g
    by (simp add: step_tag_def all_fail_fresh_steps mirror_of_def)
qed

text \<open>
  C5 (as the code has it). The us-west breaker is open and its cooldown has not elapsed at
  the gate, the us-east breaker is closed, the us-east call does not return, and the
  cache holds 199 cents for the SKU, stored at least 30 and less than 31 minutes ago.
  Then \<open>get_price\<close> preferring us-west makes exactly one call, to us-east, and returns 199,
  degraded, with freshness \<open>30m old\<close> and the reasons \<open>supplier_open\<close>,
  \<open>supplier_error_us-east\<close>, \<open>used_cache\<close> in that order: the failure tag carries the
  region's name.
\<close>

theorem c5_west_open_east_fails_cache_hit:
  assumes west: "state (breakers w US_West) = Open"
    and cool: "t_gate (region_env ev US_West) - last_opened_at_ms (breakers w US_West)
                 < cooldown_ms (breakers w US_West)"
    and east: "state (breakers w US_East) = Closed"
    and fails: "\<not> returned (fetched (region_env ev US_East))"
    and cache: "price_cache w sku = Some (199, ts)"
    and age: "30 * 60000 \<le> wall_now ev - ts" "wall_now ev - ts < 31 * 60000"
  shows "\<exists>w'. get_price ev w sku US_West
                = Inr (\<lparr>cents = 199, is_degraded = True,
                         reasons = [''supplier_open'', ''supplier_error_us-east'', ''used_cache''],
                         freshness = Some ''30m old''\<rparr>, w')
              \<and> calls w' = calls w @ [(sku, US_East)]"
proof -
  have sw: "step_skipped ev w US_West"
    using west cool by (simp add: step_skipped_def can_probe_def)
  have se: "\<not> step_skipped ev w US_East"
    using east by (simp add: step_skipped_def)
  have m: "mirror_of US_West = US_East" by (simp add: mirror_of_def)
  have f1: "step_fails ev w US_West" using sw by (simp add: step_fails_def)
  have f2: "step_fails ev w (mirror_of US_West)" using fails by (simp add: step_fails_def m)
  have fr: "freshness_label ts (wall_now ev) = ''30m old''"
    by (rule freshness_label_30m[OF age])
  from get_price_both_fail[OF f1 f2, of sku]
  show ?thesis
    unfolding cache m by (simp add: step_tag_def sw se fr)
qed

theorem c5_west_open_east_fails_cache_hit_witness:
  "map_sum id (\<lambda>(res, w'). (res, calls w')) (get_price failing_env west_open_world ''X'' US_West)
     = Inr (\<lparr>cents = 199, is_degraded = True,
             reasons = [''supplier_open'', ''supplier_error_us-east'', ''used_cache''],
             freshness = Some ''30m old''\<rparr>, [(''X'', US_East)])"
proof -
  have cool: "t_gate (region_env failing_env US_West)
                - last_opened_at_ms (breakers west_open_world US_West)
                 < cooldown_ms (breakers west_open_world US_West)"
    by (simp add: failing_env_fields west_open_world_fields)
  have fl: "\<not> returned (fetched (region_env failing_env US_East))"
    by (simp add: failing_env_fields)
  have age: "30 * 60000 \<le> wall_now failing_env - (1600000000000 - 30 * 60 * 1000)"
    "wall_now failing_env - (1600000000000 - 30 * 60 * 1000) < 31 * 60000"
    by (simp_all add: failing_env_fields)
  from c5_west_open_east_fails_cache_hit[OF west_open_world_fields(1) cool
      west_open_world_fields(4) fl west_open_world_fields(5) age]
  show ?thesis by (auto simp: west_open_world_fields)
qed

text \<open>
  C5 as stated fails on the second tag: in the scenario the code reports
  \<open>supplier_error_us-east\<close>, not \<open>supplier_error_mirror\<close>.
\<close>

theorem c5_mirror_tag_counterexample:
  "map_sum id (reasons \<circ> fst) (get_price failing_env west_open_world ''X'' US_West)
     = Inr [''supplier_open'', ''supplier_error_us-east'', ''used_cache'']
   \<and> map_sum id (reasons \<circ> fst) (get_price failing_env west_open_world ''X'' US_West)
     \<noteq> Inr [''supplier_open'', ''supplier_error_mirror'', ''used_cache'']"
proof -
  have m: "mirror_of US_West = US_East" by (simp add: mirror_of_def)
  from get_price_both_fail[OF scenario_steps(3), of "''X''"] scenario_steps(4)
  obtain w2 where "get_price failing_env west_open_world ''X'' US_West
     = Inr (\<lparr>cents = 199, is_degraded = True,
             reasons = [step_tag failing_env west_open_world US_West,
                        step_tag failing_env west_open_world US_East, ''used_cache''],
             freshness = Some (freshness_label (1600000000000 - 30 * 60 * 1000)
                                 (wall_now failing_env))\<rparr>, w2)"
    unfolding m west_open_world_fields(5) by auto
  then show ?thesis
    by (simp add: step_tag_def scenario_steps)
qed

end
